theory Spec2Isabelle
  imports Complex_Main "HOL-Library.Word"
begin

section \<open>API key token generation (CreateApiKey, \<open>generateApiKeyToken\<close>)\<close>

text \<open>
  The source fills a 32-byte \<open>Uint8Array\<close> from \<open>crypto.getRandomValues\<close> and maps every
  byte to a character of a 62-character alphabet by \<open>chars[b % chars.length]\<close>.  The random
  source is a parameter of the model: \<open>entropy i\<close> is the byte it delivers for position
  \<open>i\<close>, so a statement for every \<open>entropy\<close> is a statement for every output of the
  random source.
\<close>

type_synonym Uint8Array = "8 word list"

definition new_Uint8Array :: "nat \<Rightarrow> Uint8Array" where
  "new_Uint8Array n = replicate n 0"

definition getRandomValues :: "(nat \<Rightarrow> 8 word) \<Rightarrow> Uint8Array \<Rightarrow> Uint8Array" where
  "getRandomValues entropy arr = map entropy [0..<length arr]"

definition chars :: string where
  "chars = ''ABCDEFGHIJKLMNOPQRSTUVWXYZabcdefghijklmnopqrstuvwxyz0123456789''"

text \<open>The \<open>for (let i = 0; i < randomBytes.length; i++)\<close> loop, with its accumulator.\<close>

function token_loop :: "Uint8Array \<Rightarrow> nat \<Rightarrow> string \<Rightarrow> string" where
  "token_loop randomBytes i result =
     (if i < length randomBytes
      then token_loop randomBytes (i + 1)
             (result @ [chars ! (unat (randomBytes ! i) mod length chars)])
      else result)"
  by pat_completeness auto
termination
  by (relation "measure (\<lambda>(randomBytes, i, result). length randomBytes - i)") auto

definition generateApiKeyToken :: "(nat \<Rightarrow> 8 word) \<Rightarrow> string" where
  "generateApiKeyToken entropy =
     (let prefix = ''of_'';
          randomBytes = getRandomValues entropy (new_Uint8Array 32)
      in prefix @ token_loop randomBytes 0 [])"

text \<open>Letters and digits, by character code.\<close>

definition is_alnum :: "char \<Rightarrow> bool" where
  "is_alnum c =
     (let n = (of_char c :: nat)
      in (65 \<le> n \<and> n \<le> 90) \<or> (97 \<le> n \<and> n \<le> 122) \<or> (48 \<le> n \<and> n \<le> 57))"

section \<open>JavaScript values\<close>

text \<open>
  Strings are \<open>string\<close>: a list of 8-bit characters holding the UTF-8 bytes of the text.
  Every string literal of the modelled sources is ASCII.  A JSON number keeps its lexeme;
  its numeric value is never inspected by the modelled code.
\<close>

datatype jsval =
    JUndefined
  | JNull
  | JBool bool
  | JNum string
  | JStr string
  | JArr "jsval list"
  | JObj "(string \<times> jsval) list"

text \<open>The exceptions the modelled code can meet.\<close>

datatype js_error = URIError | SyntaxError | TypeError

text \<open>\<open>typeof v === 'string'\<close> and \<open>Array.isArray(v)\<close>.\<close>

fun typeof_is_string :: "jsval \<Rightarrow> bool" where
  "typeof_is_string (JStr s) = True"
| "typeof_is_string v = False"

fun isArray :: "jsval \<Rightarrow> bool" where
  "isArray (JArr xs) = True"
| "isArray v = False"

text \<open>
  Property read \<open>v.name\<close> for a name that no built-in prototype defines (here only
  \<open>value\<close>): it throws a TypeError on \<open>null\<close> and \<open>undefined\<close>, finds an own property of an
  object (the last one, when a JSON text repeats a key) and is \<open>undefined\<close> everywhere else.
\<close>

fun get_property :: "jsval \<Rightarrow> string \<Rightarrow> js_error + jsval" where
  "get_property JUndefined name = Inl TypeError"
| "get_property JNull name = Inl TypeError"
| "get_property (JObj members) name =
     (case map_of (rev members) name of None \<Rightarrow> Inr JUndefined | Some v \<Rightarrow> Inr v)"
| "get_property v name = Inr JUndefined"

text \<open>\<open>Array.prototype.findIndex\<close>: the first index whose element satisfies \<open>p\<close>, or -1.\<close>

fun findIndex :: "('a \<Rightarrow> bool) \<Rightarrow> 'a list \<Rightarrow> int" where
  "findIndex p [] = -1"
| "findIndex p (x # xs) =
     (if p x then 0 else (let r = findIndex p xs in if r < 0 then -1 else r + 1))"

section \<open>StatusTabs: the tab list and the active index\<close>

record StatusConfig =
  label :: string
  color :: string

text \<open>
  \<open>statusConfig\<close> is given as the list \<open>Object.entries\<close> enumerates: keys with their
  configurations, in tab order.  \<open>statusCounts\<close> is a \<open>Record<string, number>\<close>, a plain
  object: its own properties are a partial map from keys to counts, with the total under
  the key \<open>all\<close>.
\<close>

type_synonym statusConfig_t = "(string \<times> StatusConfig) list"
type_synonym statusCounts_t = "string \<rightharpoonup> int"

text \<open>
  The property read \<open>statusCounts[value]\<close> finds an own property first and then follows the
  prototype chain: for a plain object, the members of \<open>Object.prototype\<close>.  All of them are
  functions, but \<open>__proto__\<close>, which reads as the prototype object; \<open>Inherited name\<close> stands
  for the member of that name.  A key found nowhere reads as \<open>undefined\<close>, here \<open>None\<close>.
\<close>

datatype count_value = Count int | Inherited string

definition Object_prototype_members :: "string list" where
  "Object_prototype_members =
     [''constructor'', ''__defineGetter__'', ''__defineSetter__'', ''hasOwnProperty'',
      ''__lookupGetter__'', ''__lookupSetter__'', ''isPrototypeOf'', ''propertyIsEnumerable'',
      ''toString'', ''valueOf'', ''__proto__'', ''toLocaleString'']"

definition statusCounts_read :: "statusCounts_t \<Rightarrow> string \<Rightarrow> count_value option" where
  "statusCounts_read statusCounts k =
     (case statusCounts k of
        Some n \<Rightarrow> Some (Count n)
      | None \<Rightarrow> if k \<in> set Object_prototype_members then Some (Inherited k) else None)"

record status_entry =
  svalue :: string
  slabel :: string
  scount :: count_value

text \<open>
  \<open>statusCounts[value] || 0\<close>: \<open>undefined\<close> and the number \<open>0\<close> are falsy and give \<open>0\<close>; a
  function and an object are truthy and are kept.
\<close>

definition count_or_zero :: "statusCounts_t \<Rightarrow> string \<Rightarrow> count_value" where
  "count_or_zero statusCounts k =
     (case statusCounts_read statusCounts k of
        None \<Rightarrow> Count 0
      | Some (Count n) \<Rightarrow> if n = 0 then Count 0 else Count n
      | Some (Inherited m) \<Rightarrow> Inherited m)"

definition statuses :: "statusCounts_t \<Rightarrow> statusConfig_t \<Rightarrow> status_entry list" where
  "statuses statusCounts statusConfig =
     map (\<lambda>(k, config).
            \<lparr>svalue = k, slabel = label config, scount = count_or_zero statusCounts k\<rparr>)
         statusConfig"

text \<open>
  \<open>currentStatus === "all" ? 0 : statuses.findIndex((s) => s.value === currentStatus) + 1\<close>.
  \<open>currentStatus\<close> is whatever the decoder produced, so it is a \<open>jsval\<close>; a strict comparison
  of a string with it holds exactly when it is that string.
\<close>

definition activeIndex :: "jsval \<Rightarrow> status_entry list \<Rightarrow> int" where
  "activeIndex currentStatus sts =
     (if currentStatus = JStr ''all'' then 0
      else findIndex (\<lambda>s. JStr (svalue s) = currentStatus) sts + 1)"

section \<open>StatusTabs: indicator geometry\<close>

record element =
  offsetLeft :: int
  offsetWidth :: int

record scroll_container =
  scrollLeft :: real

text \<open>
  \<open>tabRefs.current\<close> is an array of \<open>HTMLDivElement | null\<close>; an entry \<open>None\<close> is \<open>null\<close>.
  Reading outside the array is \<open>undefined\<close>.  Both make \<open>?.offsetLeft\<close> undefined, so one
  \<open>None\<close> stands for either.
\<close>

definition ref_at :: "element option list \<Rightarrow> int \<Rightarrow> element option" where
  "ref_at tabRefs i =
     (if 0 \<le> i \<and> i < int (length tabRefs) then tabRefs ! nat i else None)"

text \<open>\<open>e?.offsetLeft || 0\<close> and \<open>e?.offsetWidth || 0\<close>.\<close>

definition offsetLeft_or_zero :: "element option \<Rightarrow> int" where
  "offsetLeft_or_zero e =
     (case e of None \<Rightarrow> 0 | Some el \<Rightarrow> if offsetLeft el = 0 then 0 else offsetLeft el)"

definition offsetWidth_or_zero :: "element option \<Rightarrow> int" where
  "offsetWidth_or_zero e =
     (case e of None \<Rightarrow> 0 | Some el \<Rightarrow> if offsetWidth el = 0 then 0 else offsetWidth el)"

definition scrollOffset :: "scroll_container option \<Rightarrow> real" where
  "scrollOffset scrollContainerRef =
     (case scrollContainerRef of None \<Rightarrow> 0 | Some c \<Rightarrow> scrollLeft c)"

record indicator_style =
  left_px :: real
  width_px :: real
  opacity :: real

text \<open>The underline of the active tab (it sets no opacity: 1 is the default).\<close>

definition active_indicator ::
  "element option list \<Rightarrow> scroll_container option \<Rightarrow> int \<Rightarrow> indicator_style" where
  "active_indicator tabRefs scrollContainerRef active =
     (let activeTabOffsetLeft = offsetLeft_or_zero (ref_at tabRefs active);
          activeTabWidth = offsetWidth_or_zero (ref_at tabRefs active)
      in \<lparr>left_px = real_of_int activeTabOffsetLeft - scrollOffset scrollContainerRef,
          width_px = real_of_int activeTabWidth,
          opacity = 1\<rparr>)"

text \<open>The hover highlight; \<open>hoveredIndex\<close> is \<open>None\<close> for \<open>null\<close>.\<close>

definition hover_indicator ::
  "element option list \<Rightarrow> scroll_container option \<Rightarrow> int option \<Rightarrow> indicator_style" where
  "hover_indicator tabRefs scrollContainerRef hoveredIndex =
     \<lparr>left_px = (case hoveredIndex of
                   None \<Rightarrow> 0
                 | Some h \<Rightarrow> real_of_int (offsetLeft_or_zero (ref_at tabRefs h))
                              - scrollOffset scrollContainerRef),
      width_px = (case hoveredIndex of
                    None \<Rightarrow> 0
                  | Some h \<Rightarrow> real_of_int (offsetWidth_or_zero (ref_at tabRefs h))),
      opacity = (case hoveredIndex of None \<Rightarrow> 0 | Some h \<Rightarrow> 1)\<rparr>"

section \<open>The platform: URLSearchParams and navigation\<close>

text \<open>
  \<open>URLSearchParams\<close> is the list of its name-value pairs (WHATWG URL Standard): \<open>get\<close> reads
  the first pair of a name, \<open>delete\<close> removes every pair of a name, \<open>set\<close> overwrites the first
  pair of a name and removes the others, or appends a pair when there is none.
\<close>

type_synonym URLSearchParams = "(string \<times> string) list"

definition URLSearchParams_get :: "URLSearchParams \<Rightarrow> string \<Rightarrow> string option" where
  "URLSearchParams_get params name = map_of params name"

definition URLSearchParams_getAll :: "URLSearchParams \<Rightarrow> string \<Rightarrow> string list" where
  "URLSearchParams_getAll params name = map snd (filter (\<lambda>p. fst p = name) params)"

definition URLSearchParams_delete :: "string \<Rightarrow> URLSearchParams \<Rightarrow> URLSearchParams" where
  "URLSearchParams_delete name params = filter (\<lambda>p. fst p \<noteq> name) params"

fun URLSearchParams_set :: "string \<Rightarrow> string \<Rightarrow> URLSearchParams \<Rightarrow> URLSearchParams" where
  "URLSearchParams_set name v [] = [(name, v)]"
| "URLSearchParams_set name v (p # params) =
     (if fst p = name then (name, v) # URLSearchParams_delete name params
      else p # URLSearchParams_set name v params)"

text \<open>Hexadecimal digits.\<close>

definition is_hex_digit :: "char \<Rightarrow> bool" where
  "is_hex_digit c =
     (let n = (of_char c :: nat)
      in (48 \<le> n \<and> n \<le> 57) \<or> (65 \<le> n \<and> n \<le> 70) \<or> (97 \<le> n \<and> n \<le> 102))"

definition hex_value :: "char \<Rightarrow> nat" where
  "hex_value c =
     (let n = (of_char c :: nat)
      in if 48 \<le> n \<and> n \<le> 57 then n - 48
         else if 65 \<le> n \<and> n \<le> 70 then n - 55
         else if 97 \<le> n \<and> n \<le> 102 then n - 87
         else 0)"

definition upper_hex :: "nat \<Rightarrow> char" where
  "upper_hex d = ''0123456789ABCDEF'' ! (d mod 16)"

definition lower_hex :: "nat \<Rightarrow> char" where
  "lower_hex d = ''0123456789abcdef'' ! (d mod 16)"

definition percent_encode_byte :: "char \<Rightarrow> string" where
  "percent_encode_byte c =
     [CHR ''%'', upper_hex ((of_char c :: nat) div 16), upper_hex ((of_char c :: nat) mod 16)]"

text \<open>
  The \<open>application/x-www-form-urlencoded\<close> serializer: a space becomes \<open>+\<close>, letters, digits
  and \<open>* - . _\<close> stay, every other byte is percent-encoded; pairs are written
  \<open>name=value\<close> and joined by \<open>&\<close>.
\<close>

definition form_encode_char :: "char \<Rightarrow> string" where
  "form_encode_char c =
     (if c = CHR '' '' then ''+''
      else if is_alnum c \<or> c = CHR ''*'' \<or> c = CHR ''-'' \<or> c = CHR ''.'' \<or> c = CHR ''_''
      then [c]
      else percent_encode_byte c)"

definition form_encode :: "string \<Rightarrow> string" where
  "form_encode s = concat (map form_encode_char s)"

fun join :: "string \<Rightarrow> string list \<Rightarrow> string" where
  "join sep [] = []"
| "join sep [x] = x"
| "join sep (x # y # ys) = x @ sep @ join sep (y # ys)"

definition encode_pair :: "string \<times> string \<Rightarrow> string" where
  "encode_pair p = form_encode (fst p) @ ''='' @ form_encode (snd p)"

definition URLSearchParams_toString :: "URLSearchParams \<Rightarrow> string" where
  "URLSearchParams_toString params = join ''&'' (map encode_pair params)"

text \<open>
  The \<open>application/x-www-form-urlencoded\<close> parser: split at \<open>&\<close>, skip empty pieces, split
  each piece at its first \<open>=\<close>, turn \<open>+\<close> into a space and percent-decode.  A \<open>%\<close> that is not
  followed by two hexadecimal digits stays as it is.  The decoded bytes are the text; bytes
  that are not well-formed UTF-8, which a browser replaces by U+FFFD, are kept.
\<close>

fun split_on :: "char \<Rightarrow> string \<Rightarrow> string list" where
  "split_on sep [] = [[]]"
| "split_on sep (c # cs) =
     (if c = sep then [] # split_on sep cs
      else (case split_on sep cs of
              [] \<Rightarrow> [[c]]
            | piece # pieces \<Rightarrow> (c # piece) # pieces))"

fun percent_decode :: "string \<Rightarrow> string" where
  "percent_decode [] = []"
| "percent_decode (c # cs) =
     (case cs of
        h1 # h2 # rest \<Rightarrow>
          if c = CHR ''%'' \<and> is_hex_digit h1 \<and> is_hex_digit h2
          then char_of (16 * hex_value h1 + hex_value h2) # percent_decode rest
          else c # percent_decode cs
      | _ \<Rightarrow> c # percent_decode cs)"

definition plus_to_space :: "string \<Rightarrow> string" where
  "plus_to_space s = map (\<lambda>c. if c = CHR ''+'' then CHR '' '' else c) s"

definition parse_pair :: "string \<Rightarrow> string \<times> string" where
  "parse_pair piece =
     (let name = takeWhile (\<lambda>c. c \<noteq> CHR ''='') piece;
          v = drop 1 (dropWhile (\<lambda>c. c \<noteq> CHR ''='') piece)
      in (percent_decode (plus_to_space name), percent_decode (plus_to_space v)))"

definition urlencoded_parse :: "string \<Rightarrow> URLSearchParams" where
  "urlencoded_parse input =
     map parse_pair (filter (\<lambda>piece. piece \<noteq> []) (split_on CHR ''&'' input))"

text \<open>\<open>new URLSearchParams(init)\<close> for a string: one leading \<open>?\<close> is dropped.\<close>

definition new_URLSearchParams :: "string \<Rightarrow> URLSearchParams" where
  "new_URLSearchParams init =
     urlencoded_parse (case init of c # cs \<Rightarrow> if c = CHR ''?'' then cs else init | [] \<Rightarrow> init)"

text \<open>
  The browser location, as far as the sources read it: the path and the query string
  (\<open>location.search\<close>: empty, or \<open>?\<close> followed by the query).
\<close>

record location =
  pathname :: string
  search :: string

text \<open>
  \<open>router.push(href)\<close> resolves \<open>href\<close> against the current location.  Three shapes occur in
  the sources: the empty string (same document: nothing changes), a query-only reference
  \<open>?query\<close> (the path stays), and an absolute path with or without a query.  A fragment is
  cut off first; relative paths are not modelled.
\<close>

definition router_push :: "location \<Rightarrow> string \<Rightarrow> location" where
  "router_push current href =
     (let h = takeWhile (\<lambda>c. c \<noteq> CHR ''#'') href;
          path = takeWhile (\<lambda>c. c \<noteq> CHR ''?'') h;
          query = dropWhile (\<lambda>c. c \<noteq> CHR ''?'') h
      in if h = [] then current
         else \<lparr>pathname = (if path = [] then pathname current else path),
               search = (if query = ''?'' then [] else query)\<rparr>)"

definition useSearchParams :: "location \<Rightarrow> URLSearchParams" where
  "useSearchParams loc = new_URLSearchParams (search loc)"

definition usePathname :: "location \<Rightarrow> string" where
  "usePathname loc = pathname loc"

section \<open>The platform: JSON.stringify on an array of strings\<close>

text \<open>
  \<open>QuoteJSONString\<close> (ECMAScript): the quote and the backslash are escaped with a backslash,
  the control characters below 0x20 as \<open>\b \t \n \f \r\<close> or \<open>\u00xx\<close> with lower-case digits,
  every other character stands for itself.  (A lone surrogate, which it would escape too,
  does not occur in UTF-8 text.)
\<close>

definition json_escape_char :: "char \<Rightarrow> string" where
  "json_escape_char c =
     (let n = (of_char c :: nat)
      in if n = 0x22 then [CHR 0x5C, CHR 0x22]
         else if n = 0x5C then [CHR 0x5C, CHR 0x5C]
         else if n = 8 then [CHR 0x5C, CHR ''b'']
         else if n = 9 then [CHR 0x5C, CHR ''t'']
         else if n = 10 then [CHR 0x5C, CHR ''n'']
         else if n = 12 then [CHR 0x5C, CHR ''f'']
         else if n = 13 then [CHR 0x5C, CHR ''r'']
         else if n < 0x20
              then [CHR 0x5C, CHR ''u'', CHR ''0'', CHR ''0'', lower_hex (n div 16), lower_hex (n mod 16)]
         else [c])"

definition QuoteJSONString :: "string \<Rightarrow> string" where
  "QuoteJSONString s = [CHR 0x22] @ concat (map json_escape_char s) @ [CHR 0x22]"

text \<open>\<open>JSON.stringify(xs)\<close> for an array of strings, the only shape the sources pass.\<close>

definition JSON_stringify :: "string list \<Rightarrow> string" where
  "JSON_stringify xs = ''['' @ join '','' (map QuoteJSONString xs) @ '']''"

section \<open>StatusTabs: changing the status filter\<close>

text \<open>
  \<open>handleStatusChange\<close>: the reference handed to \<open>router.push\<close>, from the current search
  parameters, the current path and the status of the tab that was clicked.
\<close>

definition handleStatusChange :: "URLSearchParams \<Rightarrow> string \<Rightarrow> string \<Rightarrow> string" where
  "handleStatusChange searchParams path status =
     (let params = new_URLSearchParams (URLSearchParams_toString searchParams);
          params = URLSearchParams_set ''page'' ''1'' params;
          params = (if status = ''all''
                    then URLSearchParams_delete ''!status_matches'' params
                    else URLSearchParams_set ''!status_matches'' (JSON_stringify [status]) params)
      in path @ ''?'' @ URLSearchParams_toString params)"

text \<open>A click on a tab: the location after the navigation.\<close>

definition selectTab :: "location \<Rightarrow> string \<Rightarrow> location" where
  "selectTab loc status =
     router_push loc (handleStatusChange (useSearchParams loc) (usePathname loc) status)"

section \<open>The platform: decodeURIComponent\<close>

text \<open>
  ECMAScript's \<open>Decode\<close> with an empty reserved set, on the UTF-8 bytes of the text.  A
  character other than \<open>%\<close> stands for itself.  A \<open>%\<close> must be followed by two hexadecimal
  digits.  An escaped byte below 0x80 is that character; a larger one must be the lead byte
  of a 2-, 3- or 4-byte UTF-8 sequence whose other bytes follow as escapes, and the bytes
  must be the UTF-8 form of a code point (not over-long, no surrogate, at most U+10FFFF).
  Everything else throws a URIError.
\<close>

definition utf8_sequence_length :: "nat \<Rightarrow> nat" where
  "utf8_sequence_length b =
     (if b < 0x80 then 1
      else if 0xC0 \<le> b \<and> b < 0xE0 then 2
      else if 0xE0 \<le> b \<and> b < 0xF0 then 3
      else if 0xF0 \<le> b \<and> b < 0xF8 then 4
      else 0)"

definition is_continuation :: "char \<Rightarrow> bool" where
  "is_continuation c = (0x80 \<le> (of_char c :: nat) \<and> (of_char c :: nat) < 0xC0)"

text \<open>The code point a lead byte and its continuation bytes stand for.\<close>

fun utf8_code_point :: "nat \<Rightarrow> string \<Rightarrow> nat" where
  "utf8_code_point acc [] = acc"
| "utf8_code_point acc (c # cs) = utf8_code_point (acc * 64 + ((of_char c :: nat) mod 64)) cs"

definition utf8_valid :: "char \<Rightarrow> string \<Rightarrow> bool" where
  "utf8_valid lead conts =
     (let b = (of_char lead :: nat);
          n = utf8_sequence_length b;
          cp = utf8_code_point (if n = 2 then b mod 32 else if n = 3 then b mod 16 else b mod 8)
                 conts
      in list_all is_continuation conts
         \<and> (if n = 2 then 0x80 \<le> cp
             else if n = 3 then 0x800 \<le> cp \<and> (cp < 0xD800 \<or> 0xDFFF < cp)
             else 0x10000 \<le> cp \<and> cp \<le> 0x10FFFF))"

text \<open>A string that is nothing but escapes \<open>%XX\<close>, as the bytes they stand for.\<close>

fun decode_escapes :: "string \<Rightarrow> string option" where
  "decode_escapes [] = Some []"
| "decode_escapes [c] = None"
| "decode_escapes [c, h1] = None"
| "decode_escapes (c # h1 # h2 # rest) =
     (if c = CHR ''%'' \<and> is_hex_digit h1 \<and> is_hex_digit h2
      then map_option (\<lambda>bs. char_of (16 * hex_value h1 + hex_value h2) # bs) (decode_escapes rest)
      else None)"

text \<open>What follows a \<open>%\<close>: the decoded bytes and the number of characters they took.\<close>

definition decode_escape_sequence :: "string \<Rightarrow> (string \<times> nat) option" where
  "decode_escape_sequence cs =
     (case decode_escapes (CHR ''%'' # take 2 cs) of
        None \<Rightarrow> None
      | Some lead \<Rightarrow>
          (let n = utf8_sequence_length (of_char (hd lead) :: nat)
           in if n = 1 then Some (lead, 2)
              else if n = 0 then None
              else if length cs < 2 + 3 * (n - 1) then None
              else (case decode_escapes (take (3 * (n - 1)) (drop 2 cs)) of
                      None \<Rightarrow> None
                    | Some conts \<Rightarrow>
                        if utf8_valid (hd lead) conts
                        then Some (lead @ conts, 2 + 3 * (n - 1))
                        else None)))"

fun decodeURIComponent :: "string \<Rightarrow> js_error + string" where
  "decodeURIComponent [] = Inr []"
| "decodeURIComponent (c # cs) =
     (if c \<noteq> CHR ''%''
      then map_sum id (\<lambda>r. c # r) (decodeURIComponent cs)
      else if decode_escape_sequence cs = None then Inl URIError
      else map_sum id (\<lambda>r. fst (the (decode_escape_sequence cs)) @ r)
             (decodeURIComponent (drop (snd (the (decode_escape_sequence cs))) cs)))"

section \<open>The platform: JSON.parse\<close>

text \<open>
  The JSON grammar of ECMA-404, as \<open>JSON.parse\<close> reads it without a reviver: a lexer from
  characters to tokens and a stack parser from tokens to a value.  Every text the grammar
  rejects is a SyntaxError.
\<close>

datatype token =
    TLBrace | TRBrace | TLBracket | TRBracket | TColon | TComma
  | TString string | TNumber string | TTrue | TFalse | TNull

text \<open>
  The number grammar \<open>-? (0 | [1-9][0-9]*) (. [0-9]+)? ([eE] [+-]? [0-9]+)?\<close> as an
  automaton over the characters of the lexeme.
\<close>

datatype number_state =
  NStart | NMinus | NZero | NInt | NDot | NFrac | NExp | NExpSign | NExpDigits

definition is_digit :: "char \<Rightarrow> bool" where
  "is_digit c = (48 \<le> (of_char c :: nat) \<and> (of_char c :: nat) \<le> 57)"

fun number_step :: "number_state \<Rightarrow> char \<Rightarrow> number_state option" where
  "number_step NStart c =
     (if c = CHR ''-'' then Some NMinus else if c = CHR ''0'' then Some NZero
      else if is_digit c then Some NInt else None)"
| "number_step NMinus c =
     (if c = CHR ''0'' then Some NZero else if is_digit c then Some NInt else None)"
| "number_step NZero c =
     (if c = CHR ''.'' then Some NDot else if c = CHR ''e'' \<or> c = CHR ''E'' then Some NExp
      else None)"
| "number_step NInt c =
     (if is_digit c then Some NInt else if c = CHR ''.'' then Some NDot
      else if c = CHR ''e'' \<or> c = CHR ''E'' then Some NExp else None)"
| "number_step NDot c = (if is_digit c then Some NFrac else None)"
| "number_step NFrac c =
     (if is_digit c then Some NFrac else if c = CHR ''e'' \<or> c = CHR ''E'' then Some NExp
      else None)"
| "number_step NExp c =
     (if c = CHR ''+'' \<or> c = CHR ''-'' then Some NExpSign
      else if is_digit c then Some NExpDigits else None)"
| "number_step NExpSign c = (if is_digit c then Some NExpDigits else None)"
| "number_step NExpDigits c = (if is_digit c then Some NExpDigits else None)"

fun number_run :: "number_state \<Rightarrow> string \<Rightarrow> number_state option" where
  "number_run st [] = Some st"
| "number_run st (c # cs) =
     (if number_step st c = None then None else number_run (the (number_step st c)) cs)"

definition valid_number :: "string \<Rightarrow> bool" where
  "valid_number s =
     (number_run NStart s = Some NZero \<or> number_run NStart s = Some NInt
      \<or> number_run NStart s = Some NFrac \<or> number_run NStart s = Some NExpDigits)"

definition is_number_char :: "char \<Rightarrow> bool" where
  "is_number_char c =
     (is_digit c \<or> c = CHR ''-'' \<or> c = CHR ''+'' \<or> c = CHR ''.'' \<or> c = CHR ''e'' \<or> c = CHR ''E'')"

definition is_whitespace :: "char \<Rightarrow> bool" where
  "is_whitespace c =
     ((of_char c :: nat) = 0x20 \<or> (of_char c :: nat) = 9 \<or> (of_char c :: nat) = 10
      \<or> (of_char c :: nat) = 13)"

definition is_lower :: "char \<Rightarrow> bool" where
  "is_lower c = (97 \<le> (of_char c :: nat) \<and> (of_char c :: nat) \<le> 122)"

text \<open>The one-character escapes of a string: \<open>\" \\ \/ \b \f \n \r \t\<close>.\<close>

definition is_simple_escape :: "char \<Rightarrow> bool" where
  "is_simple_escape c =
     (c = CHR 0x22 \<or> c = CHR 0x5C \<or> c = CHR ''/'' \<or> c = CHR ''b'' \<or> c = CHR ''f''
      \<or> c = CHR ''n'' \<or> c = CHR ''r'' \<or> c = CHR ''t'')"

definition simple_escape :: "char \<Rightarrow> char" where
  "simple_escape c =
     (if c = CHR ''b'' then CHR 0x08 else if c = CHR ''f'' then CHR 0x0C
      else if c = CHR ''n'' then CHR 0x0A else if c = CHR ''r'' then CHR 0x0D
      else if c = CHR ''t'' then CHR 0x09 else c)"

text \<open>
  The content of a string literal is gathered as a list of items: a byte of the text, or
  the UTF-16 code unit of a \<open>\uXXXX\<close> escape.  At the closing quote the code units are
  written as UTF-8, a high surrogate followed by a low one as the single code point they
  stand for.  (A lone surrogate, which UTF-8 cannot hold, is written in the same
  three-byte pattern.)
\<close>

definition utf8_encode :: "nat \<Rightarrow> string" where
  "utf8_encode cp =
     (if cp < 0x80 then [char_of cp]
      else if cp < 0x800 then [char_of (0xC0 + cp div 64), char_of (0x80 + cp mod 64)]
      else if cp < 0x10000
      then [char_of (0xE0 + cp div 4096), char_of (0x80 + (cp div 64) mod 64),
            char_of (0x80 + cp mod 64)]
      else [char_of (0xF0 + cp div 262144), char_of (0x80 + (cp div 4096) mod 64),
            char_of (0x80 + (cp div 64) mod 64), char_of (0x80 + cp mod 64)])"

fun units_to_utf8 :: "(char + nat) list \<Rightarrow> string" where
  "units_to_utf8 [] = []"
| "units_to_utf8 (Inl c # items) = c # units_to_utf8 items"
| "units_to_utf8 (Inr hi # Inr lo # items) =
     (if 0xD800 \<le> hi \<and> hi < 0xDC00 \<and> 0xDC00 \<le> lo \<and> lo < 0xE000
      then utf8_encode (0x10000 + (hi - 0xD800) * 1024 + (lo - 0xDC00)) @ units_to_utf8 items
      else utf8_encode hi @ units_to_utf8 (Inr lo # items))"
| "units_to_utf8 (Inr u # items) = utf8_encode u @ units_to_utf8 items"

definition hex4 :: "string \<Rightarrow> nat" where
  "hex4 hs = foldl (\<lambda>acc h. 16 * acc + hex_value h) 0 hs"

datatype lex_mode =
    Top
  | InString "(char + nat) list"
  | InEscape "(char + nat) list"
  | InUnicode "(char + nat) list" string
  | InNumber string
  | InLiteral string

definition emit :: "token \<Rightarrow> js_error + token list \<Rightarrow> js_error + token list" where
  "emit t r = map_sum id (\<lambda>ts. t # ts) r"

definition literal_token :: "string \<Rightarrow> token option" where
  "literal_token s =
     (if s = ''true'' then Some TTrue else if s = ''false'' then Some TFalse
      else if s = ''null'' then Some TNull else None)"

definition punctuation :: "char \<Rightarrow> token option" where
  "punctuation c =
     (if c = CHR ''{'' then Some TLBrace else if c = CHR ''}'' then Some TRBrace
      else if c = CHR ''['' then Some TLBracket else if c = CHR '']'' then Some TRBracket
      else if c = CHR '':'' then Some TColon else if c = CHR '','' then Some TComma
      else None)"

function tokenize :: "lex_mode \<Rightarrow> string \<Rightarrow> js_error + token list" where
  "tokenize Top [] = Inr []"
| "tokenize Top (c # cs) =
     (if is_whitespace c then tokenize Top cs
      else if punctuation c \<noteq> None then emit (the (punctuation c)) (tokenize Top cs)
      else if c = CHR 0x22 then tokenize (InString []) cs
      else if c = CHR ''-'' \<or> is_digit c then tokenize (InNumber [c]) cs
      else if is_lower c then tokenize (InLiteral [c]) cs
      else Inl SyntaxError)"
| "tokenize (InString acc) [] = Inl SyntaxError"
| "tokenize (InString acc) (c # cs) =
     (if c = CHR 0x22 then emit (TString (units_to_utf8 acc)) (tokenize Top cs)
      else if c = CHR 0x5C then tokenize (InEscape acc) cs
      else if (of_char c :: nat) < 0x20 then Inl SyntaxError
      else tokenize (InString (acc @ [Inl c])) cs)"
| "tokenize (InEscape acc) [] = Inl SyntaxError"
| "tokenize (InEscape acc) (c # cs) =
     (if c = CHR ''u'' then tokenize (InUnicode acc []) cs
      else if is_simple_escape c then tokenize (InString (acc @ [Inl (simple_escape c)])) cs
      else Inl SyntaxError)"
| "tokenize (InUnicode acc hs) [] = Inl SyntaxError"
| "tokenize (InUnicode acc hs) (c # cs) =
     (if \<not> is_hex_digit c then Inl SyntaxError
      else if length hs = 3 then tokenize (InString (acc @ [Inr (hex4 (hs @ [c]))])) cs
      else tokenize (InUnicode acc (hs @ [c])) cs)"
| "tokenize (InNumber acc) [] = (if valid_number acc then Inr [TNumber acc] else Inl SyntaxError)"
| "tokenize (InNumber acc) (c # cs) =
     (if is_number_char c then tokenize (InNumber (acc @ [c])) cs
      else if valid_number acc then emit (TNumber acc) (tokenize Top (c # cs))
      else Inl SyntaxError)"
| "tokenize (InLiteral acc) [] =
     (if literal_token acc \<noteq> None then Inr [the (literal_token acc)] else Inl SyntaxError)"
| "tokenize (InLiteral acc) (c # cs) =
     (if is_lower c then tokenize (InLiteral (acc @ [c])) cs
      else if literal_token acc \<noteq> None then emit (the (literal_token acc)) (tokenize Top (c # cs))
      else Inl SyntaxError)"
  by pat_completeness auto
termination
  by (relation "measure (\<lambda>(m, s). 2 * length s + (case m of Top \<Rightarrow> 0 | _ \<Rightarrow> 1))") auto

text \<open>
  The parser keeps a stack of the arrays and objects that are open, innermost first; an
  object's frame remembers the key that waits for its value.
\<close>

datatype frame =
    FArray "jsval list"
  | FObject "(string \<times> jsval) list" string

datatype parse_mode =
    MValue
  | MValueOrClose
  | MKeyOrClose
  | MKey
  | MColon
  | MAfter
  | MDone jsval

type_synonym parse_state = "frame list \<times> parse_mode"

text \<open>A value is complete: it is the result, or it goes into the innermost open container.\<close>

fun complete :: "jsval \<Rightarrow> frame list \<Rightarrow> js_error + parse_state" where
  "complete v [] = Inr ([], MDone v)"
| "complete v (FArray xs # st) = Inr (FArray (xs @ [v]) # st, MAfter)"
| "complete v (FObject ms k # st) = Inr (FObject (ms @ [(k, v)]) k # st, MAfter)"

fun start_value :: "frame list \<Rightarrow> token \<Rightarrow> js_error + parse_state" where
  "start_value st TLBracket = Inr (FArray [] # st, MValueOrClose)"
| "start_value st TLBrace = Inr (FObject [] [] # st, MKeyOrClose)"
| "start_value st (TString s) = complete (JStr s) st"
| "start_value st (TNumber n) = complete (JNum n) st"
| "start_value st TTrue = complete (JBool True) st"
| "start_value st TFalse = complete (JBool False) st"
| "start_value st TNull = complete JNull st"
| "start_value st t = Inl SyntaxError"

fun close_array :: "frame list \<Rightarrow> js_error + parse_state" where
  "close_array (FArray xs # st) = complete (JArr xs) st"
| "close_array st = Inl SyntaxError"

fun close_object :: "frame list \<Rightarrow> js_error + parse_state" where
  "close_object (FObject ms k # st) = complete (JObj ms) st"
| "close_object st = Inl SyntaxError"

fun set_key :: "frame list \<Rightarrow> string \<Rightarrow> js_error + parse_state" where
  "set_key (FObject ms k # st) key = Inr (FObject ms key # st, MColon)"
| "set_key st key = Inl SyntaxError"

fun after_comma :: "frame list \<Rightarrow> js_error + parse_state" where
  "after_comma (FArray xs # st) = Inr (FArray xs # st, MValue)"
| "after_comma (FObject ms k # st) = Inr (FObject ms k # st, MKey)"
| "after_comma [] = Inl SyntaxError"

fun parse_step :: "parse_state \<Rightarrow> token \<Rightarrow> js_error + parse_state" where
  "parse_step (st, MValue) t = start_value st t"
| "parse_step (st, MValueOrClose) t = (if t = TRBracket then close_array st else start_value st t)"
| "parse_step (st, MKeyOrClose) t =
     (case t of TString k \<Rightarrow> set_key st k | TRBrace \<Rightarrow> close_object st | _ \<Rightarrow> Inl SyntaxError)"
| "parse_step (st, MKey) t = (case t of TString k \<Rightarrow> set_key st k | _ \<Rightarrow> Inl SyntaxError)"
| "parse_step (st, MColon) t = (if t = TColon then Inr (st, MValue) else Inl SyntaxError)"
| "parse_step (st, MAfter) t =
     (if t = TComma then after_comma st
      else if t = TRBracket then close_array st
      else if t = TRBrace then close_object st
      else Inl SyntaxError)"
| "parse_step (st, MDone v) t = Inl SyntaxError"

fun parse_tokens :: "parse_state \<Rightarrow> token list \<Rightarrow> js_error + jsval" where
  "parse_tokens (st, MDone v) [] = (if st = [] then Inr v else Inl SyntaxError)"
| "parse_tokens (st, m) [] = Inl SyntaxError"
| "parse_tokens s (t # ts) =
     (if isl (parse_step s t) then Inl SyntaxError else parse_tokens (projr (parse_step s t)) ts)"

definition JSON_parse :: "string \<Rightarrow> js_error + jsval" where
  "JSON_parse text' =
     (if isl (tokenize Top text') then Inl SyntaxError
      else parse_tokens ([], MValue) (projr (tokenize Top text')))"

section \<open>StatusTabs: the current status, decoded from the URL\<close>

text \<open>\<open>try { ... } catch (e) { ... }\<close>: an exception of the body is handed to the handler.\<close>

definition try_catch :: "js_error + 'a \<Rightarrow> (js_error \<Rightarrow> js_error + 'a) \<Rightarrow> js_error + 'a" where
  "try_catch body handler = (case body of Inl e \<Rightarrow> handler e | Inr v \<Rightarrow> Inr v)"

text \<open>
  The body of the \<open>try\<close> block: the value \<open>currentStatus\<close> has when the block ends normally.
  \<open>parsed[0]\<close> is read only when the array is not empty.
\<close>

definition decode_body :: "string \<Rightarrow> jsval \<Rightarrow> js_error + jsval" where
  "decode_body statusFilter currentStatus =
     (case decodeURIComponent statusFilter of
        Inl e \<Rightarrow> Inl e
      | Inr decoded \<Rightarrow>
          (case JSON_parse decoded of
             Inl e \<Rightarrow> Inl e
           | Inr parsed \<Rightarrow>
               (case parsed of
                  JArr (first # others) \<Rightarrow>
                    if typeof_is_string first then Inr first else get_property first ''value''
                | _ \<Rightarrow> Inr currentStatus)))"

text \<open>
  Lines 35 to 47 of StatusTabs: \<open>statusFilter\<close> is \<open>searchParams.get("!status_matches")\<close>,
  \<open>None\<close> for \<open>null\<close>; \<open>if (statusFilter)\<close> is false for \<open>null\<close> and for the empty string;
  the handler is empty, so \<open>currentStatus\<close> keeps the value it had.  The result is the value of
  \<open>currentStatus\<close> after the statement, or the exception that leaves it.
\<close>

definition decode_currentStatus :: "string option \<Rightarrow> js_error + jsval" where
  "decode_currentStatus statusFilter =
     (let currentStatus = JStr ''all''
      in if statusFilter \<noteq> None \<and> statusFilter \<noteq> Some []
         then try_catch (decode_body (the statusFilter) currentStatus) (\<lambda>e. Inr currentStatus)
         else Inr currentStatus)"

text \<open>The status the component shows for a location.\<close>

definition currentStatus_of :: "location \<Rightarrow> js_error + jsval" where
  "currentStatus_of loc =
     decode_currentStatus (URLSearchParams_get (useSearchParams loc) ''!status_matches'')"

section \<open>The inventory list page\<close>

text \<open>The status configuration the inventory page passes to \<open>StatusTabs\<close>, in source order.\<close>

definition statusConfig :: statusConfig_t where
  "statusConfig =
     [(''in_stock'', \<lparr>label = ''In Stock'', color = ''emerald''\<rparr>),
      (''low_stock'', \<lparr>label = ''Low Stock'', color = ''yellow''\<rparr>),
      (''out_of_stock'', \<lparr>label = ''Out of Stock'', color = ''red''\<rparr>),
      (''backordered'', \<lparr>label = ''Backordered'', color = ''purple''\<rparr>)]"

text \<open>
  \<open>Number.prototype.toString\<close> for an integer (below \<open>10^21\<close> in magnitude, where JavaScript
  still writes plain decimal digits).
\<close>

fun decimal_digits :: "nat \<Rightarrow> string" where
  "decimal_digits n =
     (if n < 10 then [char_of (48 + n)]
      else decimal_digits (n div 10) @ [char_of (48 + n mod 10)])"

definition Number_toString :: "int \<Rightarrow> string" where
  "Number_toString n =
     (if n < 0 then ''-'' @ decimal_digits (nat (- n)) else decimal_digits (nat n))"

text \<open>
  \<open>handlePageChange\<close>: the reference handed to \<open>router.push\<close>, from \<open>window.location.search\<close>
  and the requested page.  \<open>newPage && newPage > 1\<close> is false for 0 as well.
\<close>

definition handlePageChange :: "string \<Rightarrow> int \<Rightarrow> string" where
  "handlePageChange location_search newPage =
     (let params = new_URLSearchParams location_search;
          params = (if newPage \<noteq> 0 \<and> newPage > 1
                    then URLSearchParams_set ''page'' (Number_toString newPage) params
                    else URLSearchParams_delete ''page'' params);
          newUrl = (if URLSearchParams_toString params \<noteq> []
                    then ''?'' @ URLSearchParams_toString params
                    else [])
      in newUrl)"

text \<open>A page change: the location after the navigation.\<close>

definition changePage :: "location \<Rightarrow> int \<Rightarrow> location" where
  "changePage loc newPage = router_push loc (handlePageChange (search loc) newPage)"

text \<open>
  The props of \<open>InventoryListPageClient\<close>, as far as the choice of what to render reads
  them: \<open>list\<close> (only tested for being there), \<open>initialData.count\<close>, \<open>initialError\<close>
  (\<open>None\<close> for \<open>null\<close>) and \<open>initialSearchParams\<close>.  The status filter is not among the
  props: it lives in the URL, where \<open>StatusTabs\<close> reads it.
\<close>

record initialSearchParams_t =
  page :: int
  pageSize :: int
  search_term :: string

record InventoryListPageClientProps =
  list_present :: bool
  initialData_count :: int
  initialError :: "string option"
  initialSearchParams :: initialSearchParams_t

datatype render_state =
    ListNotFound
  | ErrorAlert string
  | EmptyStateDefault
  | EmptyStateSearch
  | DataGrid bool

text \<open>
  What the component renders below the filter bar: the early return for a missing list,
  then the chain \<open>error ? ... : isEmpty ? ... : data?.count === 0 ? ... : ...\<close>.  A string is
  truthy when it is not empty.  \<open>DataGrid b\<close> is the item list, with pagination when \<open>b\<close>.
\<close>

definition InventoryListPageClient :: "InventoryListPageClientProps \<Rightarrow> render_state" where
  "InventoryListPageClient props =
     (let error = initialError props;
          pageSize' = pageSize (initialSearchParams props);
          searchString = search_term (initialSearchParams props)
      in if \<not> list_present props then ListNotFound
         else
           (let hasFilters = (searchString \<noteq> []);
                isFiltered = hasFilters;
                isEmpty = (initialData_count props = 0 \<and> \<not> isFiltered)
            in if error \<noteq> None \<and> error \<noteq> Some [] then ErrorAlert (the error)
               else if isEmpty then EmptyStateDefault
               else if initialData_count props = 0 then EmptyStateSearch
               else DataGrid (initialData_count props > pageSize')))"

text \<open>The inventory page's location with a given query string.\<close>

definition at_inventory :: "string \<Rightarrow> location" where
  "at_inventory query = \<lparr>pathname = ''/dashboard/platform/inventory'', search = query\<rparr>"

text \<open>
  Two query strings: page 3 of a search for \<open>widget\<close>, filtered to \<open>low_stock\<close> and sorted by
  name; and the \<open>low_stock\<close> filter alone.
\<close>

definition filtered_query :: string where
  "filtered_query = ''?page=3&search=widget&%21status_matches=%5B%22low_stock%22%5D&sort=name''"

definition low_stock_query :: string where
  "low_stock_query = ''?%21status_matches=%5B%22low_stock%22%5D''"

section \<open>Notions used in the statements and proofs\<close>

text \<open>
  The search parameters a status change and a page change leave behind, written on the
  parameter list; lemmas below show that the locations after \<open>selectTab\<close> and \<open>changePage\<close>
  carry exactly these.
\<close>

definition after_status_change :: "URLSearchParams \<Rightarrow> string \<Rightarrow> URLSearchParams" where
  "after_status_change ps status =
     (if status = ''all''
      then URLSearchParams_delete ''!status_matches'' (URLSearchParams_set ''page'' ''1'' ps)
      else URLSearchParams_set ''!status_matches'' (JSON_stringify [status])
             (URLSearchParams_set ''page'' ''1'' ps))"

definition after_page_change :: "URLSearchParams \<Rightarrow> int \<Rightarrow> URLSearchParams" where
  "after_page_change ps newPage =
     (if newPage \<noteq> 0 \<and> newPage > 1
      then URLSearchParams_set ''page'' (Number_toString newPage) ps
      else URLSearchParams_delete ''page'' ps)"

text \<open>The item the lexer gathers for a character that \<open>QuoteJSONString\<close> wrote.\<close>

definition item_of :: "char \<Rightarrow> char + nat" where
  "item_of c =
     (let n = (of_char c :: nat)
      in if n < 0x20 \<and> n \<noteq> 8 \<and> n \<noteq> 9 \<and> n \<noteq> 10 \<and> n \<noteq> 12 \<and> n \<noteq> 13 then Inr n else Inl c)"

section \<open>Properties of the token generator\<close>

lemma length_chars: "length chars = 62"
  by (simp add: chars_def)

lemma chars_alnum: "list_all is_alnum chars"
  by (simp add: chars_def is_alnum_def)

declare token_loop.simps [simp del]

lemma token_loop_length:
  "i \<le> length bs \<Longrightarrow> length (token_loop bs i acc) = length acc + (length bs - i)"
proof (induction bs i acc rule: token_loop.induct)
  case (1 bs i acc)
  show ?case
  proof (cases "i < length bs")
    case True
    with "1.IH" [OF True] show ?thesis
      by (subst token_loop.simps) simp
  next
    case False
    with "1.prems" show ?thesis
      by (subst token_loop.simps) simp
  qed
qed

lemma token_loop_set:
  "set (token_loop bs i acc) \<subseteq> set acc \<union> set chars"
proof (induction bs i acc rule: token_loop.induct)
  case (1 bs i acc)
  show ?case
  proof (cases "i < length bs")
    case True
    have "chars ! (unat (bs ! i) mod length chars) \<in> set chars"
      by (rule nth_mem) (simp add: length_chars)
    with "1.IH" [OF True] True show ?thesis
      by (subst token_loop.simps) auto
  next
    case False
    then show ?thesis
      by (subst token_loop.simps) simp
  qed
qed

text \<open>
  C10: for every output of the random source, the token is the prefix \<open>of_\<close> followed by
  exactly 32 characters of the 62-character alphabet; it is 35 characters long, and every
  character of the alphabet is a letter A-Z, a-z or a digit 0-9.
\<close>

theorem generateApiKeyToken_shape:
  "length (generateApiKeyToken entropy) = 35
   \<and> take 3 (generateApiKeyToken entropy) = ''of_''
   \<and> length (drop 3 (generateApiKeyToken entropy)) = 32
   \<and> set (drop 3 (generateApiKeyToken entropy)) \<subseteq> set chars
   \<and> length chars = 62 \<and> distinct chars \<and> list_all is_alnum chars"
proof -
  let ?bs = "getRandomValues entropy (new_Uint8Array 32)"
  have len: "length ?bs = 32"
    by (simp add: getRandomValues_def new_Uint8Array_def)
  have body: "length (token_loop ?bs 0 []) = 32"
    using token_loop_length [of 0 ?bs "[]"] len by simp
  have tok: "generateApiKeyToken entropy = ''of_'' @ token_loop ?bs 0 []"
    by (simp add: generateApiKeyToken_def Let_def)
  have sub: "set (token_loop ?bs 0 []) \<subseteq> set chars"
    using token_loop_set [of ?bs 0 "[]"] by simp
  have d: "distinct chars"
    by (simp add: chars_def)
  show ?thesis
    using body sub d length_chars chars_alnum by (simp add: tok)
qed

section \<open>Properties of the tab list and the active index\<close>

lemma findIndex_ge: "- 1 \<le> findIndex p xs"
  by (induction xs) (auto simp: Let_def)

lemma findIndex_none: "(\<forall>x \<in> set xs. \<not> p x) \<Longrightarrow> findIndex p xs = - 1"
  by (induction xs) (auto simp: Let_def)

lemma findIndex_first:
  "i < length xs \<Longrightarrow> p (xs ! i) \<Longrightarrow> (\<forall>j < i. \<not> p (xs ! j)) \<Longrightarrow> findIndex p xs = int i"
proof (induction xs arbitrary: i)
  case Nil
  then show ?case by simp
next
  case (Cons x xs)
  show ?case
  proof (cases i)
    case 0
    with Cons.prems show ?thesis by simp
  next
    case (Suc n)
    from Cons.prems Suc have nx: "\<not> p x" by auto
    from Cons.prems Suc have "n < length xs" "p (xs ! n)" by auto
    moreover from Cons.prems Suc have "\<forall>j < n. \<not> p (xs ! j)" by auto
    ultimately have "findIndex p xs = int n" by (rule Cons.IH)
    with nx Suc show ?thesis by (simp add: Let_def)
  qed
qed

lemma statuses_length: "length (statuses counts cfg) = length cfg"
  by (simp add: statuses_def)

lemma statuses_svalue: "map svalue (statuses counts cfg) = map fst cfg"
  by (simp add: statuses_def case_prod_unfold comp_def)

lemma statuses_nth:
  "i < length cfg \<Longrightarrow>
   statuses counts cfg ! i =
     \<lparr>svalue = fst (cfg ! i), slabel = label (snd (cfg ! i)),
      scount = count_or_zero counts (fst (cfg ! i))\<rparr>"
  by (simp add: statuses_def case_prod_unfold)

text \<open>
  C6: the active index is 0 when the decoded selection is \<open>all\<close>, and 0 when it is no
  configured key; when it is the \<open>i\<close>-th configured key (0-based, keys being the distinct
  property names of an object, and the selection not being the sentinel of the first case)
  it is \<open>i + 1\<close>.
\<close>

theorem activeIndex_cases:
  "(currentStatus = JStr ''all'' \<longrightarrow> activeIndex currentStatus (statuses counts cfg) = 0)
   \<and> ((\<forall>k \<in> set (map fst cfg). currentStatus \<noteq> JStr k) \<longrightarrow>
        activeIndex currentStatus (statuses counts cfg) = 0)
   \<and> (distinct (map fst cfg) \<and> i < length cfg \<and> currentStatus = JStr (fst (cfg ! i))
        \<and> currentStatus \<noteq> JStr ''all'' \<longrightarrow>
        activeIndex currentStatus (statuses counts cfg) = int i + 1)"
proof (intro conjI impI)
  assume "currentStatus = JStr ''all''"
  then show "activeIndex currentStatus (statuses counts cfg) = 0"
    by (simp add: activeIndex_def)
next
  assume nf: "\<forall>k \<in> set (map fst cfg). currentStatus \<noteq> JStr k"
  have "\<forall>s \<in> set (statuses counts cfg). \<not> JStr (svalue s) = currentStatus"
  proof
    fix s assume "s \<in> set (statuses counts cfg)"
    then have "svalue s \<in> set (map svalue (statuses counts cfg))" by simp
    then have "svalue s \<in> set (map fst cfg)" by (simp only: statuses_svalue)
    with nf show "\<not> JStr (svalue s) = currentStatus" by auto
  qed
  then have "findIndex (\<lambda>s. JStr (svalue s) = currentStatus) (statuses counts cfg) = - 1"
    by (rule findIndex_none)
  then show "activeIndex currentStatus (statuses counts cfg) = 0"
    by (simp add: activeIndex_def)
next
  assume a: "distinct (map fst cfg) \<and> i < length cfg \<and> currentStatus = JStr (fst (cfg ! i))
             \<and> currentStatus \<noteq> JStr ''all''"
  let ?sts = "statuses counts cfg"
  from a have i: "i < length ?sts" by (simp add: statuses_length)
  from a have hit: "JStr (svalue (?sts ! i)) = currentStatus"
    by (simp add: statuses_nth)
  have first: "\<forall>j < i. \<not> JStr (svalue (?sts ! j)) = currentStatus"
  proof (intro allI impI)
    fix j assume j: "j < i"
    from a j have "distinct (map fst cfg)" "j < length (map fst cfg)"
      "i < length (map fst cfg)" "j \<noteq> i" by simp_all
    then have "map fst cfg ! j \<noteq> map fst cfg ! i"
      by (simp only: nth_eq_iff_index_eq not_False_eq_True)
    with a j show "\<not> JStr (svalue (?sts ! j)) = currentStatus"
      by (simp add: statuses_nth)
  qed
  from i hit first
  have "findIndex (\<lambda>s. JStr (svalue s) = currentStatus) ?sts = int i"
    by (rule findIndex_first)
  moreover from a have "currentStatus \<noteq> JStr ''all''" by blast
  ultimately show "activeIndex currentStatus ?sts = int i + 1"
    by (simp only: activeIndex_def if_False)
qed

text \<open>
  With the inventory page's four statuses: the sentinel gives 0, a key that is not
  configured gives 0, and the third configured status (\<open>out_of_stock\<close>, index 2) gives 3.
\<close>

theorem activeIndex_cases_witness:
  "activeIndex (JStr ''all'') (statuses Map.empty statusConfig) = 0
   \<and> activeIndex (JStr ''archived'') (statuses Map.empty statusConfig) = 0
   \<and> activeIndex JUndefined (statuses Map.empty statusConfig) = 0
   \<and> fst (statusConfig ! 2) = ''out_of_stock''
   \<and> activeIndex (JStr ''out_of_stock'') (statuses Map.empty statusConfig) = 3"
proof -
  have all: "activeIndex (JStr ''all'') (statuses Map.empty statusConfig) = 0"
    using activeIndex_cases [of "JStr ''all''" Map.empty statusConfig 0] by simp
  have arch: "activeIndex (JStr ''archived'') (statuses Map.empty statusConfig) = 0"
    using activeIndex_cases [of "JStr ''archived''" Map.empty statusConfig 0]
    by (simp add: statusConfig_def)
  have undef: "activeIndex JUndefined (statuses Map.empty statusConfig) = 0"
    using activeIndex_cases [of JUndefined Map.empty statusConfig 0]
    by (simp add: statusConfig_def)
  have third: "activeIndex (JStr ''out_of_stock'') (statuses Map.empty statusConfig) = 3"
    using activeIndex_cases [of "JStr ''out_of_stock''" Map.empty statusConfig 2]
    by (simp add: statusConfig_def)
  have k: "fst (statusConfig ! 2) = ''out_of_stock''"
    by (simp add: statusConfig_def)
  from all arch undef k third show ?thesis by simp
qed

text \<open>
  One tab is built for every key of \<open>statusConfig\<close>, in order, whatever \<open>statusCounts\<close>
  holds.  A key that \<open>statusCounts\<close> lacks, or maps to 0, gets the count 0, unless it is
  the name of a member of \<open>Object.prototype\<close>.
\<close>

lemma statuses_count_default:
  "length (statuses counts cfg) = length cfg
   \<and> map svalue (statuses counts cfg) = map fst cfg
   \<and> (\<forall>i. i < length cfg
            \<and> (counts (fst (cfg ! i)) = None \<and> fst (cfg ! i) \<notin> set Object_prototype_members
                \<or> counts (fst (cfg ! i)) = Some 0) \<longrightarrow>
          svalue (statuses counts cfg ! i) = fst (cfg ! i)
          \<and> scount (statuses counts cfg ! i) = Count 0)"
proof (intro conjI allI impI)
  show "length (statuses counts cfg) = length cfg"
    by (rule statuses_length)
  show "map svalue (statuses counts cfg) = map fst cfg"
    by (rule statuses_svalue)
next
  fix i
  assume a: "i < length cfg
             \<and> (counts (fst (cfg ! i)) = None \<and> fst (cfg ! i) \<notin> set Object_prototype_members
                 \<or> counts (fst (cfg ! i)) = Some 0)"
  then show "svalue (statuses counts cfg ! i) = fst (cfg ! i)"
    by (simp add: statuses_nth)
  from a have "count_or_zero counts (fst (cfg ! i)) = Count 0"
    by (auto simp: count_or_zero_def statusCounts_read_def)
  with a show "scount (statuses counts cfg ! i) = Count 0"
    by (simp add: statuses_nth)
qed

text \<open>
  The counts of the spec's example, \<open>{all: 10, in_stock: 7, low_stock: 0, out_of_stock: 2,
  backordered: 1}\<close>, with the inventory page's statuses: the \<open>low_stock\<close> tab is there with
  the count 0, and it is there with the count 0 as well when \<open>statusCounts\<close> has no
  \<open>low_stock\<close> entry at all.
\<close>

lemma statuses_inventory_example:
  "map svalue (statuses [''all'' \<mapsto> 10, ''in_stock'' \<mapsto> 7, ''low_stock'' \<mapsto> 0,
                         ''out_of_stock'' \<mapsto> 2, ''backordered'' \<mapsto> 1] statusConfig)
     = [''in_stock'', ''low_stock'', ''out_of_stock'', ''backordered'']
   \<and> map scount (statuses [''all'' \<mapsto> 10, ''in_stock'' \<mapsto> 7, ''low_stock'' \<mapsto> 0,
                           ''out_of_stock'' \<mapsto> 2, ''backordered'' \<mapsto> 1] statusConfig)
       = [Count 7, Count 0, Count 2, Count 1]
   \<and> map scount (statuses [''all'' \<mapsto> 10, ''in_stock'' \<mapsto> 7] statusConfig)
       = [Count 7, Count 0, Count 0, Count 0]"
  by (simp add: statuses_def statusConfig_def count_or_zero_def statusCounts_read_def
        Object_prototype_members_def)

text \<open>
  C7 at a configured key that \<open>statusCounts\<close> lacks and \<open>Object.prototype\<close> has: with
  \<open>statusConfig = {constructor: {label: "Constructor", color: "red"}}\<close> and
  \<open>statusCounts = {all: 10}\<close> the tab is built, but \<open>statusCounts["constructor"]\<close> is the
  inherited function \<open>Object\<close>, which is truthy, so the count of the tab is that function
  and not 0.
\<close>

theorem statuses_inherited_key_count:
  "map svalue (statuses [''all'' \<mapsto> 10]
                 [(''constructor'', \<lparr>label = ''Constructor'', color = ''red''\<rparr>)])
     = [''constructor'']
   \<and> [''all'' \<mapsto> (10::int)] ''constructor'' = None
   \<and> map scount (statuses [''all'' \<mapsto> 10]
                   [(''constructor'', \<lparr>label = ''Constructor'', color = ''red''\<rparr>)])
       = [Inherited ''constructor'']
   \<and> Inherited ''constructor'' \<noteq> Count 0"
  by (simp add: statuses_def count_or_zero_def statusCounts_read_def
        Object_prototype_members_def)

section \<open>Properties of the indicator geometry\<close>

lemma ref_at_out_of_range: "i < 0 \<or> int (length tabRefs) \<le> i \<Longrightarrow> ref_at tabRefs i = None"
  by (auto simp: ref_at_def)

text \<open>
  C9, as the code has it: for every index, with the node mounted the underline and the
  hover highlight sit at the node's \<open>offsetLeft\<close> minus the strip's scroll offset and have
  its \<open>offsetWidth\<close>; with no node mounted for the index (a \<open>null\<close> entry, or an index
  outside the array) both measurements are 0, so the width is 0 and the left position is 0
  minus the scroll offset, which is 0 only while the strip is not scrolled.  No case
  raises: the functions are total.
\<close>

theorem indicator_geometry:
  "(ref_at tabRefs i = Some e \<longrightarrow>
      left_px (active_indicator tabRefs sc i) = real_of_int (offsetLeft e) - scrollOffset sc
      \<and> width_px (active_indicator tabRefs sc i) = real_of_int (offsetWidth e)
      \<and> left_px (hover_indicator tabRefs sc (Some i))
          = real_of_int (offsetLeft e) - scrollOffset sc
      \<and> width_px (hover_indicator tabRefs sc (Some i)) = real_of_int (offsetWidth e))
   \<and> (ref_at tabRefs i = None \<longrightarrow>
        offsetLeft_or_zero (ref_at tabRefs i) = 0
        \<and> offsetWidth_or_zero (ref_at tabRefs i) = 0
        \<and> left_px (active_indicator tabRefs sc i) = 0 - scrollOffset sc
        \<and> width_px (active_indicator tabRefs sc i) = 0
        \<and> left_px (hover_indicator tabRefs sc (Some i)) = 0 - scrollOffset sc
        \<and> width_px (hover_indicator tabRefs sc (Some i)) = 0)
   \<and> (i < 0 \<or> int (length tabRefs) \<le> i \<longrightarrow> ref_at tabRefs i = None)
   \<and> (sc = None \<longrightarrow> scrollOffset sc = 0)"
  by (auto simp: active_indicator_def hover_indicator_def offsetLeft_or_zero_def
        offsetWidth_or_zero_def scrollOffset_def ref_at_def Let_def)

text \<open>
  A strip of three tabs scrolled by 30 pixels: the second tab is measured at 120 and 80 wide,
  so its indicator is at 90; index 7 has no node, which gives width 0 at position -30, and
  position 0 while nothing is scrolled.
\<close>

theorem indicator_geometry_witness:
  "left_px (active_indicator
      [Some \<lparr>offsetLeft = 0, offsetWidth = 100\<rparr>, Some \<lparr>offsetLeft = 120, offsetWidth = 80\<rparr>, None]
      (Some \<lparr>scrollLeft = 30\<rparr>) 1) = 90
   \<and> width_px (active_indicator
      [Some \<lparr>offsetLeft = 0, offsetWidth = 100\<rparr>, Some \<lparr>offsetLeft = 120, offsetWidth = 80\<rparr>, None]
      (Some \<lparr>scrollLeft = 30\<rparr>) 1) = 80
   \<and> width_px (active_indicator
      [Some \<lparr>offsetLeft = 0, offsetWidth = 100\<rparr>, Some \<lparr>offsetLeft = 120, offsetWidth = 80\<rparr>, None]
      (Some \<lparr>scrollLeft = 30\<rparr>) 7) = 0
   \<and> left_px (active_indicator
      [Some \<lparr>offsetLeft = 0, offsetWidth = 100\<rparr>, Some \<lparr>offsetLeft = 120, offsetWidth = 80\<rparr>, None]
      (Some \<lparr>scrollLeft = 30\<rparr>) 7) = - 30
   \<and> left_px (active_indicator [] None 7) = 0
   \<and> width_px (active_indicator [] None 7) = 0"
proof -
  let ?refs = "[Some \<lparr>offsetLeft = 0, offsetWidth = 100\<rparr>,
                Some \<lparr>offsetLeft = 120, offsetWidth = 80\<rparr>, None]"
  let ?sc = "Some \<lparr>scrollLeft = 30\<rparr>"
  have m: "ref_at ?refs 1 = Some \<lparr>offsetLeft = 120, offsetWidth = 80\<rparr>"
    by (simp add: ref_at_def)
  have u: "ref_at ?refs 7 = None" "ref_at [] 7 = None"
    by (simp_all add: ref_at_def)
  have s: "scrollOffset ?sc = 30" "scrollOffset None = 0"
    by (simp_all add: scrollOffset_def)
  from indicator_geometry [of ?refs 1 "\<lparr>offsetLeft = 120, offsetWidth = 80\<rparr>" ?sc] m s
  have a: "left_px (active_indicator ?refs ?sc 1) = 90
           \<and> width_px (active_indicator ?refs ?sc 1) = 80" by simp
  from indicator_geometry [of ?refs 7 undefined ?sc] u s
  have b: "width_px (active_indicator ?refs ?sc 7) = 0
           \<and> left_px (active_indicator ?refs ?sc 7) = - 30" by simp
  from indicator_geometry [of "[]" 7 undefined None] u s
  have c: "left_px (active_indicator [] None 7) = 0
           \<and> width_px (active_indicator [] None 7) = 0" by simp
  from a b c show ?thesis by simp
qed

text \<open>
  C9 as the claim states it fails: in a strip of two tabs scrolled by 50 pixels, index 5
  has no node; the underline and the hover highlight for it have width 0 but sit at -50,
  not at offset 0.
\<close>

theorem unmounted_indicator_is_shifted_by_scroll:
  "ref_at [Some \<lparr>offsetLeft = 0, offsetWidth = 90\<rparr>, Some \<lparr>offsetLeft = 96, offsetWidth = 70\<rparr>] 5
     = None
   \<and> width_px (active_indicator
        [Some \<lparr>offsetLeft = 0, offsetWidth = 90\<rparr>, Some \<lparr>offsetLeft = 96, offsetWidth = 70\<rparr>]
        (Some \<lparr>scrollLeft = 50\<rparr>) 5) = 0
   \<and> left_px (active_indicator
        [Some \<lparr>offsetLeft = 0, offsetWidth = 90\<rparr>, Some \<lparr>offsetLeft = 96, offsetWidth = 70\<rparr>]
        (Some \<lparr>scrollLeft = 50\<rparr>) 5) = - 50
   \<and> left_px (hover_indicator
        [Some \<lparr>offsetLeft = 0, offsetWidth = 90\<rparr>, Some \<lparr>offsetLeft = 96, offsetWidth = 70\<rparr>]
        (Some \<lparr>scrollLeft = 50\<rparr>) (Some 5)) = - 50"
  by (simp add: active_indicator_def hover_indicator_def offsetLeft_or_zero_def
        offsetWidth_or_zero_def scrollOffset_def ref_at_def)

section \<open>URLSearchParams: parsing what was serialized\<close>

lemma upper_hex_mem: "upper_hex d \<in> set ''0123456789ABCDEF''"
  unfolding upper_hex_def by (rule nth_mem) simp

lemma upper_hex_is_hex: "is_hex_digit (upper_hex d)"
proof -
  have "\<forall>c \<in> set ''0123456789ABCDEF''. is_hex_digit c"
    by (simp add: is_hex_digit_def)
  with upper_hex_mem show ?thesis by blast
qed

lemma hex_value_upper_hex: "d < 16 \<Longrightarrow> hex_value (upper_hex d) = d"
proof -
  assume "d < 16"
  then have "d \<in> set [0..<16]" by simp
  moreover have "\<forall>d \<in> set [0..<16]. hex_value (upper_hex d) = d"
    by (simp add: upt_rec hex_value_def upper_hex_def)
  ultimately show ?thesis by blast
qed

lemma of_char_lt_256: "(of_char c :: nat) < 256"
  by (rule nat_of_char_less_256)

lemma decode_encode_byte:
  "char_of (16 * hex_value (upper_hex ((of_char c :: nat) div 16))
            + hex_value (upper_hex ((of_char c :: nat) mod 16))) = c"
proof -
  let ?n = "of_char c :: nat"
  have "?n < 256" by (rule of_char_lt_256)
  then have a: "?n div 16 < 16" by arith
  have b: "?n mod 16 < 16" by simp
  have "16 * (?n div 16) + ?n mod 16 = ?n" by simp
  then show ?thesis
    by (simp only: hex_value_upper_hex [OF a] hex_value_upper_hex [OF b] char_of_char)
qed

lemma percent_decode_plain: "c \<noteq> CHR ''%'' \<Longrightarrow> percent_decode (c # cs) = c # percent_decode cs"
  by (simp split: list.splits)

lemma percent_decode_escape:
  "is_hex_digit h1 \<Longrightarrow> is_hex_digit h2 \<Longrightarrow>
   percent_decode (CHR ''%'' # h1 # h2 # rest)
     = char_of (16 * hex_value h1 + hex_value h2) # percent_decode rest"
  by simp

declare percent_decode.simps(2) [simp del]

lemma plus_to_space_append: "plus_to_space (a @ b) = plus_to_space a @ plus_to_space b"
  by (simp add: plus_to_space_def)

lemma hex_not_special:
  "upper_hex d \<noteq> CHR ''+'' \<and> upper_hex d \<noteq> CHR ''&'' \<and> upper_hex d \<noteq> CHR ''=''
   \<and> upper_hex d \<noteq> CHR ''?'' \<and> upper_hex d \<noteq> CHR ''#'' \<and> upper_hex d \<noteq> CHR ''%''"
proof -
  have "\<forall>c \<in> set ''0123456789ABCDEF''. c \<noteq> CHR ''+'' \<and> c \<noteq> CHR ''&'' \<and> c \<noteq> CHR ''=''
      \<and> c \<noteq> CHR ''?'' \<and> c \<noteq> CHR ''#'' \<and> c \<noteq> CHR ''%''"
    by simp
  with upper_hex_mem show ?thesis by blast
qed

lemma is_alnum_not_special:
  "is_alnum c \<Longrightarrow> c \<noteq> CHR ''+'' \<and> c \<noteq> CHR ''&'' \<and> c \<noteq> CHR ''=''
   \<and> c \<noteq> CHR ''?'' \<and> c \<noteq> CHR ''#'' \<and> c \<noteq> CHR ''%''"
  by (auto simp: is_alnum_def)

text \<open>The characters the serializer writes: none of them separates or ends a query.\<close>

lemma form_encode_char_clean:
  "x \<in> set (form_encode_char c) \<Longrightarrow>
   x \<noteq> CHR ''&'' \<and> x \<noteq> CHR ''='' \<and> x \<noteq> CHR ''?'' \<and> x \<noteq> CHR ''#''"
  using hex_not_special is_alnum_not_special
  by (auto simp: form_encode_char_def percent_encode_byte_def split: if_splits)

lemma form_encode_clean:
  "x \<in> set (form_encode s) \<Longrightarrow>
   x \<noteq> CHR ''&'' \<and> x \<noteq> CHR ''='' \<and> x \<noteq> CHR ''?'' \<and> x \<noteq> CHR ''#''"
  using form_encode_char_clean by (auto simp: form_encode_def)

lemma decode_form_encode_char:
  "percent_decode (plus_to_space (form_encode_char c) @ r) = c # percent_decode r"
proof (cases "c = CHR '' ''")
  case True
  then show ?thesis
    by (simp add: form_encode_char_def plus_to_space_def percent_decode_plain)
next
  case sp: False
  show ?thesis
  proof (cases "is_alnum c \<or> c = CHR ''*'' \<or> c = CHR ''-'' \<or> c = CHR ''.'' \<or> c = CHR ''_''")
    case True
    with is_alnum_not_special [of c] have "c \<noteq> CHR ''+''" "c \<noteq> CHR ''%''" by auto
    with True sp show ?thesis
      by (simp add: form_encode_char_def plus_to_space_def percent_decode_plain)
  next
    case False
    let ?h1 = "upper_hex ((of_char c :: nat) div 16)"
    let ?h2 = "upper_hex ((of_char c :: nat) mod 16)"
    from False sp have "form_encode_char c = [CHR ''%'', ?h1, ?h2]"
      by (simp add: form_encode_char_def percent_encode_byte_def)
    moreover have "plus_to_space [CHR ''%'', ?h1, ?h2] = [CHR ''%'', ?h1, ?h2]"
      using hex_not_special [of "(of_char c :: nat) div 16"]
        hex_not_special [of "(of_char c :: nat) mod 16"]
      by (simp add: plus_to_space_def)
    ultimately have "percent_decode (plus_to_space (form_encode_char c) @ r)
        = percent_decode (CHR ''%'' # ?h1 # ?h2 # r)" by simp
    also have "\<dots> = char_of (16 * hex_value ?h1 + hex_value ?h2) # percent_decode r"
      by (rule percent_decode_escape) (rule upper_hex_is_hex)+
    finally show ?thesis by (simp only: decode_encode_byte)
  qed
qed

lemma decode_form_encode_append:
  "percent_decode (plus_to_space (form_encode s) @ r) = s @ percent_decode r"
proof (induction s)
  case Nil
  then show ?case by (simp add: form_encode_def plus_to_space_def)
next
  case (Cons c s)
  have "form_encode (c # s) = form_encode_char c @ form_encode s"
    by (simp add: form_encode_def)
  then have "percent_decode (plus_to_space (form_encode (c # s)) @ r)
      = percent_decode (plus_to_space (form_encode_char c) @ (plus_to_space (form_encode s) @ r))"
    by (simp add: plus_to_space_append)
  also have "\<dots> = c # percent_decode (plus_to_space (form_encode s) @ r)"
    by (rule decode_form_encode_char)
  finally show ?case by (simp add: Cons.IH)
qed

lemma decode_form_encode: "percent_decode (plus_to_space (form_encode s)) = s"
  using decode_form_encode_append [of s "[]"] by simp


lemma split_on_no_sep: "sep \<notin> set x \<Longrightarrow> split_on sep x = [x]"
  by (induction x) auto

lemma split_on_append:
  "sep \<notin> set x \<Longrightarrow> split_on sep (x @ sep # rest) = x # split_on sep rest"
  by (induction x) auto

lemma split_on_join:
  "segs \<noteq> [] \<Longrightarrow> \<forall>x \<in> set segs. sep \<notin> set x \<Longrightarrow> split_on sep (join [sep] segs) = segs"
proof (induction "[sep]" segs rule: join.induct)
  case 1
  then show ?case by simp
next
  case (2 x)
  then show ?case by (simp add: split_on_no_sep)
next
  case (3 x y ys)
  then show ?case by (simp add: split_on_append)
qed

lemma set_join: "set (join sep xs) \<subseteq> set sep \<union> \<Union> (set ` set xs)"
  by (induction sep xs rule: join.induct) auto

lemma toString_encode_pair: "URLSearchParams_toString ps = join ''&'' (map encode_pair ps)"
  by (simp add: URLSearchParams_toString_def)

lemma encode_pair_no_amp: "CHR ''&'' \<notin> set (encode_pair p)"
  using form_encode_clean by (auto simp: encode_pair_def)

lemma encode_pair_nonempty: "encode_pair p \<noteq> []"
  by (simp add: encode_pair_def)

lemma parse_encode_pair: "parse_pair (encode_pair p) = p"
proof -
  let ?P = "\<lambda>c. c \<noteq> CHR ''=''"
  have clean: "\<And>x. x \<in> set (form_encode (fst p)) \<Longrightarrow> ?P x"
    using form_encode_clean by blast
  have t: "takeWhile ?P (encode_pair p) = form_encode (fst p)"
    unfolding encode_pair_def using clean by simp
  have d: "dropWhile ?P (encode_pair p) = ''='' @ form_encode (snd p)"
    unfolding encode_pair_def using clean by simp
  show ?thesis
    by (simp add: parse_pair_def t d decode_form_encode)
qed

lemma urlencoded_parse_toString: "urlencoded_parse (URLSearchParams_toString ps) = ps"
proof (cases "ps = []")
  case True
  then show ?thesis
    by (simp add: urlencoded_parse_def URLSearchParams_toString_def)
next
  case False
  let ?segs = "map encode_pair ps"
  have ne: "?segs \<noteq> []" using False by simp
  have clean: "\<forall>x \<in> set ?segs. CHR ''&'' \<notin> set x"
    using encode_pair_no_amp by auto
  have "split_on CHR ''&'' (join ''&'' ?segs) = ?segs"
    using split_on_join [OF ne clean] .
  moreover have "filter (\<lambda>piece. piece \<noteq> []) ?segs = ?segs"
    using encode_pair_nonempty by (simp add: filter_id_conv)
  ultimately show ?thesis
    by (simp add: urlencoded_parse_def toString_encode_pair comp_def parse_encode_pair)
qed

lemma toString_clean:
  "x \<in> set (URLSearchParams_toString ps) \<Longrightarrow> x \<noteq> CHR ''?'' \<and> x \<noteq> CHR ''#''"
proof -
  assume "x \<in> set (URLSearchParams_toString ps)"
  with set_join [of "''&''" "map encode_pair ps"]
  have "x = CHR ''&'' \<or> (\<exists>p \<in> set ps. x \<in> set (encode_pair p))"
    by (auto simp: toString_encode_pair)
  then show ?thesis
    using form_encode_clean by (auto simp: encode_pair_def)
qed

lemma new_URLSearchParams_toString: "new_URLSearchParams (URLSearchParams_toString ps) = ps"
proof -
  have "\<And>c cs. URLSearchParams_toString ps = c # cs \<Longrightarrow> c \<noteq> CHR ''?''"
    using toString_clean [of _ ps] by (metis list.set_intros(1))
  then have "new_URLSearchParams (URLSearchParams_toString ps)
      = urlencoded_parse (URLSearchParams_toString ps)"
    by (auto simp: new_URLSearchParams_def split: list.splits)
  then show ?thesis by (simp add: urlencoded_parse_toString)
qed

lemma new_URLSearchParams_question:
  "new_URLSearchParams (CHR ''?'' # URLSearchParams_toString ps) = ps"
  by (simp add: new_URLSearchParams_def urlencoded_parse_toString)

lemma toString_empty_iff: "URLSearchParams_toString ps = [] \<longleftrightarrow> ps = []"
proof
  assume e: "URLSearchParams_toString ps = []"
  have "new_URLSearchParams (URLSearchParams_toString ps) = ps"
    by (rule new_URLSearchParams_toString)
  with e show "ps = []"
    by (simp add: new_URLSearchParams_def urlencoded_parse_def)
next
  assume "ps = []"
  then show "URLSearchParams_toString ps = []"
    by (simp add: URLSearchParams_toString_def)
qed

text \<open>How \<open>set\<close> and \<open>delete\<close> act on the pairs of each name.\<close>

lemma filter_delete_other:
  "k \<noteq> name \<Longrightarrow>
   filter (\<lambda>p. fst p = k) (URLSearchParams_delete name ps) = filter (\<lambda>p. fst p = k) ps"
  by (induction ps) (auto simp: URLSearchParams_delete_def)

lemma filter_delete_same:
  "filter (\<lambda>p. fst p = name) (URLSearchParams_delete name ps) = []"
  by (induction ps) (auto simp: URLSearchParams_delete_def)

lemma filter_set_same:
  "filter (\<lambda>p. fst p = name) (URLSearchParams_set name v ps) = [(name, v)]"
  by (induction ps) (auto simp: filter_delete_same)

lemma filter_set_other:
  "k \<noteq> name \<Longrightarrow>
   filter (\<lambda>p. fst p = k) (URLSearchParams_set name v ps) = filter (\<lambda>p. fst p = k) ps"
  by (induction ps) (auto simp: filter_delete_other)

lemma frame_delete:
  "\<not> Q name \<Longrightarrow>
   filter (\<lambda>p. Q (fst p)) (URLSearchParams_delete name ps) = filter (\<lambda>p. Q (fst p)) ps"
  by (induction ps) (auto simp: URLSearchParams_delete_def)

lemma frame_set:
  "\<not> Q name \<Longrightarrow>
   filter (\<lambda>p. Q (fst p)) (URLSearchParams_set name v ps) = filter (\<lambda>p. Q (fst p)) ps"
  by (induction ps) (auto simp: frame_delete)

lemma set_nonempty: "URLSearchParams_set name v ps \<noteq> []"
  by (cases ps) auto

section \<open>Navigation: the location after a status change and after a page change\<close>

lemma router_push_path_query:
  assumes p: "CHR ''?'' \<notin> set path" "CHR ''#'' \<notin> set path"
    and q: "qs \<noteq> []" "\<forall>x \<in> set qs. x \<noteq> CHR ''?'' \<and> x \<noteq> CHR ''#''"
  shows "router_push loc (path @ ''?'' @ qs)
         = \<lparr>pathname = (if path = [] then pathname loc else path), search = ''?'' @ qs\<rparr>"
proof -
  let ?href = "path @ ''?'' @ qs"
  have h: "takeWhile (\<lambda>c. c \<noteq> CHR ''#'') ?href = ?href"
    using p q by (auto simp: takeWhile_eq_all_conv)
  have np: "\<And>x. x \<in> set path \<Longrightarrow> x \<noteq> CHR ''?''"
    using p by auto
  have t: "takeWhile (\<lambda>c. c \<noteq> CHR ''?'') ?href = path"
    using np by simp
  have d: "dropWhile (\<lambda>c. c \<noteq> CHR ''?'') ?href = ''?'' @ qs"
    using np by simp
  from q have ne: "''?'' @ qs \<noteq> ''?''" by simp
  show ?thesis
    unfolding router_push_def Let_def h t d using ne by simp
qed

lemma after_status_change_page:
  "filter (\<lambda>p. fst p = ''page'') (after_status_change ps status) = [(''page'', ''1'')]"
  by (simp add: after_status_change_def filter_delete_other filter_set_other filter_set_same)

lemma after_status_change_nonempty: "after_status_change ps status \<noteq> []"
proof
  assume "after_status_change ps status = []"
  then have "filter (\<lambda>p. fst p = ''page'') (after_status_change ps status) = []" by simp
  then show False by (simp add: after_status_change_page)
qed

lemma handleStatusChange_href:
  "handleStatusChange sp path status
     = path @ ''?'' @ URLSearchParams_toString (after_status_change sp status)"
  by (simp add: handleStatusChange_def after_status_change_def Let_def
        new_URLSearchParams_toString)

lemma selectTab_location:
  assumes "CHR ''?'' \<notin> set (pathname loc)" "CHR ''#'' \<notin> set (pathname loc)"
  shows "selectTab loc status
         = \<lparr>pathname = pathname loc,
            search = ''?'' @ URLSearchParams_toString
                               (after_status_change (useSearchParams loc) status)\<rparr>"
proof -
  let ?qs = "URLSearchParams_toString (after_status_change (useSearchParams loc) status)"
  have ne: "?qs \<noteq> []"
    by (simp add: toString_empty_iff after_status_change_nonempty)
  have clean: "\<forall>x \<in> set ?qs. x \<noteq> CHR ''?'' \<and> x \<noteq> CHR ''#''"
    using toString_clean by blast
  have "selectTab loc status = router_push loc (pathname loc @ ''?'' @ ?qs)"
    by (simp add: selectTab_def handleStatusChange_href usePathname_def)
  also have "\<dots> = \<lparr>pathname = (if pathname loc = [] then pathname loc else pathname loc),
                     search = ''?'' @ ?qs\<rparr>"
    using assms ne clean by (rule router_push_path_query)
  finally show ?thesis by simp
qed

lemma selectTab_params:
  assumes "CHR ''?'' \<notin> set (pathname loc)" "CHR ''#'' \<notin> set (pathname loc)"
  shows "useSearchParams (selectTab loc status) = after_status_change (useSearchParams loc) status"
  by (simp add: selectTab_location [OF assms] useSearchParams_def new_URLSearchParams_question)

lemma handlePageChange_href:
  "handlePageChange s newPage =
     (if after_page_change (new_URLSearchParams s) newPage = [] then []
      else ''?'' @ URLSearchParams_toString (after_page_change (new_URLSearchParams s) newPage))"
  by (simp add: handlePageChange_def after_page_change_def Let_def toString_empty_iff)

lemma changePage_location:
  "changePage loc newPage =
     (if after_page_change (useSearchParams loc) newPage = [] then loc
      else \<lparr>pathname = pathname loc,
             search = ''?'' @ URLSearchParams_toString
                                (after_page_change (useSearchParams loc) newPage)\<rparr>)"
proof (cases "after_page_change (useSearchParams loc) newPage = []")
  case True
  then show ?thesis
    by (simp add: changePage_def handlePageChange_href useSearchParams_def router_push_def)
next
  case False
  let ?qs = "URLSearchParams_toString (after_page_change (useSearchParams loc) newPage)"
  have ne: "?qs \<noteq> []" using False by (simp add: toString_empty_iff)
  have clean: "\<forall>x \<in> set ?qs. x \<noteq> CHR ''?'' \<and> x \<noteq> CHR ''#''"
    using toString_clean by blast
  have "changePage loc newPage = router_push loc ([] @ ''?'' @ ?qs)"
    using False by (simp add: changePage_def handlePageChange_href useSearchParams_def)
  also have "\<dots> = \<lparr>pathname = (if [] = ([]::string) then pathname loc else []),
                     search = ''?'' @ ?qs\<rparr>"
    using ne clean by (intro router_push_path_query) simp_all
  finally show ?thesis using False by simp
qed

lemma after_page_change_frame:
  "filter (\<lambda>p. fst p \<noteq> ''page'') (after_page_change ps newPage)
     = filter (\<lambda>p. fst p \<noteq> ''page'') ps"
  unfolding after_page_change_def
  using frame_set [of "\<lambda>k. k \<noteq> ''page''" "''page''"]
    frame_delete [of "\<lambda>k. k \<noteq> ''page''" "''page''"] by simp

lemma changePage_params:
  "useSearchParams (changePage loc newPage) =
     (if after_page_change (useSearchParams loc) newPage = [] then useSearchParams loc
      else after_page_change (useSearchParams loc) newPage)"
  by (simp add: changePage_location useSearchParams_def new_URLSearchParams_question)

lemma changePage_frame:
  "filter (\<lambda>p. fst p \<noteq> ''page'') (useSearchParams (changePage loc newPage))
     = filter (\<lambda>p. fst p \<noteq> ''page'') (useSearchParams loc)"
  by (simp add: changePage_params after_page_change_frame)

lemma after_status_change_frame:
  "filter (\<lambda>p. fst p \<noteq> ''page'' \<and> fst p \<noteq> ''!status_matches'') (after_status_change ps status)
     = filter (\<lambda>p. fst p \<noteq> ''page'' \<and> fst p \<noteq> ''!status_matches'') ps"
  unfolding after_status_change_def
  using frame_set [of "\<lambda>k. k \<noteq> ''page'' \<and> k \<noteq> ''!status_matches''" "''page''"]
    frame_set [of "\<lambda>k. k \<noteq> ''page'' \<and> k \<noteq> ''!status_matches''" "''!status_matches''"]
    frame_delete [of "\<lambda>k. k \<noteq> ''page'' \<and> k \<noteq> ''!status_matches''" "''!status_matches''"]
  by simp

lemma getAll_filter:
  "URLSearchParams_getAll ps k = map snd (filter (\<lambda>p. fst p = k) ps)"
  by (simp add: URLSearchParams_getAll_def)

lemma frame_filter:
  assumes "filter (\<lambda>p. Q (fst p)) ps' = filter (\<lambda>p. Q (fst p)) ps" "Q k"
  shows "filter (\<lambda>p. fst p = k) ps' = filter (\<lambda>p. fst p = k) ps"
proof -
  have "\<And>qs. filter (\<lambda>p. fst p = k) qs = filter (\<lambda>p. fst p = k) (filter (\<lambda>p. Q (fst p)) qs)"
    using assms(2) by (auto intro: filter_cong)
  then show ?thesis
    using assms(1) by metis
qed

lemma get_hd_filter:
  "URLSearchParams_get ps k = (case filter (\<lambda>p. fst p = k) ps of [] \<Rightarrow> None | p # _ \<Rightarrow> Some (snd p))"
  by (induction ps) (auto simp: URLSearchParams_get_def)

lemma frame_get:
  assumes "filter (\<lambda>p. Q (fst p)) ps' = filter (\<lambda>p. Q (fst p)) ps" "Q k"
  shows "URLSearchParams_get ps' k = URLSearchParams_get ps k"
  using frame_filter [OF assms] by (simp add: get_hd_filter)

lemma frame_getAll:
  assumes "filter (\<lambda>p. Q (fst p)) ps' = filter (\<lambda>p. Q (fst p)) ps" "Q k"
  shows "URLSearchParams_getAll ps' k = URLSearchParams_getAll ps k"
  using frame_filter [OF assms] by (simp add: getAll_filter)

lemma at_inventory_simps [simp]:
  "pathname (at_inventory query) = ''/dashboard/platform/inventory''"
  "search (at_inventory query) = query"
  by (simp_all add: at_inventory_def)

lemmas parse_eval = new_URLSearchParams_def urlencoded_parse_def parse_pair_def plus_to_space_def
  percent_decode_plain percent_decode_escape is_hex_digit_def hex_value_def char_of_def bit_iff_odd

lemmas serialize_eval = URLSearchParams_toString_def encode_pair_def form_encode_def
  form_encode_char_def is_alnum_def percent_encode_byte_def upper_hex_def

lemmas json_eval = JSON_stringify_def QuoteJSONString_def json_escape_char_def lower_hex_def

text \<open>
  C8: for every starting query string, a page change leaves every parameter other than
  \<open>page\<close> as it was, in particular \<open>!status_matches\<close> and \<open>search\<close>, and keeps the path; a
  status change leaves every parameter other than \<open>page\<close> and \<open>!status_matches\<close> as it was,
  in particular \<open>search\<close>, and keeps the path.  The path returned by \<open>usePathname\<close> holds
  no \<open>?\<close> and no \<open>#\<close>.
\<close>

theorem url_mutation_frame:
  "filter (\<lambda>p. fst p \<noteq> ''page'') (useSearchParams (changePage loc newPage))
     = filter (\<lambda>p. fst p \<noteq> ''page'') (useSearchParams loc)
   \<and> URLSearchParams_get (useSearchParams (changePage loc newPage)) ''!status_matches''
       = URLSearchParams_get (useSearchParams loc) ''!status_matches''
   \<and> URLSearchParams_get (useSearchParams (changePage loc newPage)) ''search''
       = URLSearchParams_get (useSearchParams loc) ''search''
   \<and> pathname (changePage loc newPage) = pathname loc
   \<and> (CHR ''?'' \<notin> set (pathname loc) \<and> CHR ''#'' \<notin> set (pathname loc) \<longrightarrow>
        filter (\<lambda>p. fst p \<noteq> ''page'' \<and> fst p \<noteq> ''!status_matches'')
               (useSearchParams (selectTab loc status))
          = filter (\<lambda>p. fst p \<noteq> ''page'' \<and> fst p \<noteq> ''!status_matches'') (useSearchParams loc)
        \<and> URLSearchParams_get (useSearchParams (selectTab loc status)) ''search''
            = URLSearchParams_get (useSearchParams loc) ''search''
        \<and> pathname (selectTab loc status) = pathname loc)"
proof (intro conjI impI)
  show f: "filter (\<lambda>p. fst p \<noteq> ''page'') (useSearchParams (changePage loc newPage))
           = filter (\<lambda>p. fst p \<noteq> ''page'') (useSearchParams loc)"
    by (rule changePage_frame)
  show "URLSearchParams_get (useSearchParams (changePage loc newPage)) ''!status_matches''
        = URLSearchParams_get (useSearchParams loc) ''!status_matches''"
    by (rule frame_get [of "\<lambda>k. k \<noteq> ''page''", OF f]) simp
  show "URLSearchParams_get (useSearchParams (changePage loc newPage)) ''search''
        = URLSearchParams_get (useSearchParams loc) ''search''"
    by (rule frame_get [of "\<lambda>k. k \<noteq> ''page''", OF f]) simp
  show "pathname (changePage loc newPage) = pathname loc"
    by (simp add: changePage_location)
next
  assume a: "CHR ''?'' \<notin> set (pathname loc) \<and> CHR ''#'' \<notin> set (pathname loc)"
  then have p: "CHR ''?'' \<notin> set (pathname loc)" "CHR ''#'' \<notin> set (pathname loc)" by simp_all
  show g: "filter (\<lambda>p. fst p \<noteq> ''page'' \<and> fst p \<noteq> ''!status_matches'')
                  (useSearchParams (selectTab loc status))
           = filter (\<lambda>p. fst p \<noteq> ''page'' \<and> fst p \<noteq> ''!status_matches'') (useSearchParams loc)"
    by (simp only: selectTab_params [OF p] after_status_change_frame)
  show "URLSearchParams_get (useSearchParams (selectTab loc status)) ''search''
        = URLSearchParams_get (useSearchParams loc) ''search''"
    by (rule frame_get [of "\<lambda>k. k \<noteq> ''page'' \<and> k \<noteq> ''!status_matches''", OF g]) simp
  show "pathname (selectTab loc status) = pathname loc"
    by (simp add: selectTab_location [OF p])
qed


lemma inventory_location_params:
  "useSearchParams (at_inventory filtered_query)
   = [(''page'', ''3''), (''search'', ''widget''),
      (''!status_matches'', JSON_stringify [''low_stock'']), (''sort'', ''name'')]"
  by (simp add: useSearchParams_def filtered_query_def parse_eval json_eval)

text \<open>
  On the inventory page at page 3, searching for \<open>widget\<close>, filtered to \<open>low_stock\<close> and
  sorted by name: going to page 2 keeps the filter and the search term, and selecting
  \<open>in_stock\<close> keeps the search term and the sort order.
\<close>

theorem url_mutation_frame_witness:
  "URLSearchParams_get (useSearchParams (changePage (at_inventory filtered_query) 2)) ''!status_matches''
     = Some (JSON_stringify [''low_stock''])
   \<and> URLSearchParams_get (useSearchParams (changePage (at_inventory filtered_query) 2)) ''search'' = Some ''widget''
   \<and> pathname (changePage (at_inventory filtered_query) 2) = ''/dashboard/platform/inventory''
   \<and> URLSearchParams_get (useSearchParams (selectTab (at_inventory filtered_query) ''in_stock'')) ''search'' = Some ''widget''
   \<and> filter (\<lambda>p. fst p \<noteq> ''page'' \<and> fst p \<noteq> ''!status_matches'')
         (useSearchParams (selectTab (at_inventory filtered_query) ''in_stock''))
       = [(''search'', ''widget''), (''sort'', ''name'')]"
proof -
  let ?L = "at_inventory filtered_query"
  have p: "CHR ''?'' \<notin> set (pathname ?L) \<and> CHR ''#'' \<notin> set (pathname ?L)"
    by simp
  note T = url_mutation_frame [of ?L 2 "''in_stock''"]
  note S = T [THEN conjunct2, THEN conjunct2, THEN conjunct2, THEN conjunct2, THEN mp, OF p]
  have a: "URLSearchParams_get (useSearchParams (changePage ?L 2)) ''!status_matches''
           = Some (JSON_stringify [''low_stock''])"
    using T [THEN conjunct2, THEN conjunct1]
    by (simp add: inventory_location_params URLSearchParams_get_def)
  have b: "URLSearchParams_get (useSearchParams (changePage ?L 2)) ''search'' = Some ''widget''"
    using T [THEN conjunct2, THEN conjunct2, THEN conjunct1]
    by (simp add: inventory_location_params URLSearchParams_get_def)
  have c: "pathname (changePage ?L 2) = ''/dashboard/platform/inventory''"
    using T [THEN conjunct2, THEN conjunct2, THEN conjunct2, THEN conjunct1] by simp
  have d: "URLSearchParams_get (useSearchParams (selectTab ?L ''in_stock'')) ''search''
           = Some ''widget''"
    using S [THEN conjunct2, THEN conjunct1]
    by (simp add: inventory_location_params URLSearchParams_get_def)
  have e: "filter (\<lambda>p. fst p \<noteq> ''page'' \<and> fst p \<noteq> ''!status_matches'')
             (useSearchParams (selectTab ?L ''in_stock''))
           = [(''search'', ''widget''), (''sort'', ''name'')]"
    using S [THEN conjunct1] by (simp add: inventory_location_params)
  from a b c d e show ?thesis by blast
qed

lemma after_status_change_getAll_page:
  "URLSearchParams_getAll (after_status_change ps status) ''page'' = [''1'']"
  by (simp add: getAll_filter after_status_change_page)

text \<open>
  C2, as the code has it: for every status key and for \<open>all\<close>, the location after a status
  change holds exactly one \<open>page\<close> parameter, and its value is the explicit \<open>1\<close>.
\<close>

theorem selectTab_sets_page_1:
  assumes "CHR ''?'' \<notin> set (pathname loc)" and "CHR ''#'' \<notin> set (pathname loc)"
  shows "URLSearchParams_getAll (useSearchParams (selectTab loc status)) ''page'' = [''1'']
         \<and> URLSearchParams_get (useSearchParams (selectTab loc status)) ''page'' = Some ''1''"
  by (simp add: selectTab_params [OF assms] getAll_filter get_hd_filter after_status_change_page)

text \<open>From page 3 of the inventory page, a status change and a change to \<open>all\<close>.\<close>

theorem selectTab_sets_page_1_witness:
  "URLSearchParams_getAll (useSearchParams (selectTab (at_inventory filtered_query) ''in_stock'')) ''page'' = [''1'']
   \<and> URLSearchParams_get (useSearchParams (selectTab (at_inventory filtered_query) ''in_stock'')) ''page'' = Some ''1''
   \<and> URLSearchParams_getAll (useSearchParams (selectTab (at_inventory filtered_query) ''all'')) ''page'' = [''1'']"
proof -
  have p: "CHR ''?'' \<notin> set (pathname (at_inventory filtered_query))"
    "CHR ''#'' \<notin> set (pathname (at_inventory filtered_query))"
    by simp_all
  from selectTab_sets_page_1 [OF p, of "''in_stock''"] selectTab_sets_page_1 [OF p, of "''all''"]
  show ?thesis by blast
qed

text \<open>
  C2 as the claim states it fails: from a location with no query at all, selecting
  \<open>low_stock\<close> gives the query \<open>?page=1&%21status_matches=%5B%22low_stock%22%5D\<close>, and
  selecting \<open>all\<close> gives \<open>?page=1\<close>: the \<open>page\<close> parameter is present with the value \<open>1\<close>,
  not absent.
\<close>

theorem selectTab_writes_page_explicitly:
  "search (selectTab (at_inventory []) ''low_stock'') = ''?page=1&%21status_matches=%5B%22low_stock%22%5D''
   \<and> URLSearchParams_get (useSearchParams (selectTab (at_inventory []) ''low_stock'')) ''page'' = Some ''1''
   \<and> search (selectTab (at_inventory []) ''all'') = ''?page=1''"
proof -
  have p: "CHR ''?'' \<notin> set (pathname (at_inventory []))"
    "CHR ''#'' \<notin> set (pathname (at_inventory []))"
    by simp_all
  have e: "useSearchParams (at_inventory []) = []"
    by (simp add: useSearchParams_def new_URLSearchParams_def urlencoded_parse_def)
  have a: "search (selectTab (at_inventory []) ''low_stock'') = ''?page=1&%21status_matches=%5B%22low_stock%22%5D''"
    by (simp add: selectTab_location [OF p] e after_status_change_def serialize_eval json_eval)
  have b: "URLSearchParams_get (useSearchParams (selectTab (at_inventory []) ''low_stock'')) ''page'' = Some ''1''"
    by (simp add: selectTab_params [OF p] get_hd_filter after_status_change_page)
  have c: "search (selectTab (at_inventory []) ''all'') = ''?page=1''"
    by (simp add: selectTab_location [OF p] e after_status_change_def URLSearchParams_delete_def
          serialize_eval)
  from a b c show ?thesis by blast
qed

text \<open>
  C5: for every starting query string, the location after selecting \<open>all\<close> has no
  \<open>!status_matches\<close> parameter, whatever its value; so no filter value \<open>all\<close> is written.
\<close>

theorem selectTab_all_removes_filter:
  assumes "CHR ''?'' \<notin> set (pathname loc)" and "CHR ''#'' \<notin> set (pathname loc)"
  shows "URLSearchParams_get (useSearchParams (selectTab loc ''all'')) ''!status_matches'' = None
         \<and> URLSearchParams_getAll (useSearchParams (selectTab loc ''all'')) ''!status_matches'' = []
         \<and> (\<forall>v. (''!status_matches'', v) \<notin> set (useSearchParams (selectTab loc ''all'')))"
proof -
  let ?ps = "useSearchParams (selectTab loc ''all'')"
  have f: "filter (\<lambda>p. fst p = ''!status_matches'') ?ps = []"
    by (simp add: selectTab_params [OF assms] after_status_change_def filter_delete_same)
  then have "\<forall>v. (''!status_matches'', v) \<notin> set ?ps"
    by (auto simp: filter_empty_conv)
  with f show ?thesis
    by (simp add: getAll_filter get_hd_filter)
qed

text \<open>
  The inventory page filtered to \<open>low_stock\<close>: after selecting \<open>all\<close> the query is
  \<open>?page=1&search=widget&sort=name\<close>.
\<close>

theorem selectTab_all_removes_filter_witness:
  "URLSearchParams_get (useSearchParams (at_inventory filtered_query)) ''!status_matches''
     = Some (JSON_stringify [''low_stock''])
   \<and> URLSearchParams_get (useSearchParams (selectTab (at_inventory filtered_query) ''all'')) ''!status_matches'' = None
   \<and> URLSearchParams_getAll (useSearchParams (selectTab (at_inventory filtered_query) ''all'')) ''!status_matches'' = []
   \<and> search (selectTab (at_inventory filtered_query) ''all'') = ''?page=1&search=widget&sort=name''"
proof -
  have p: "CHR ''?'' \<notin> set (pathname (at_inventory filtered_query))"
    "CHR ''#'' \<notin> set (pathname (at_inventory filtered_query))"
    by simp_all
  have a: "URLSearchParams_get (useSearchParams (at_inventory filtered_query)) ''!status_matches''
           = Some (JSON_stringify [''low_stock''])"
    by (simp add: inventory_location_params URLSearchParams_get_def)
  have b: "search (selectTab (at_inventory filtered_query) ''all'') = ''?page=1&search=widget&sort=name''"
    by (simp add: selectTab_location [OF p] inventory_location_params after_status_change_def
          URLSearchParams_delete_def serialize_eval)
  from selectTab_all_removes_filter [OF p] a b show ?thesis by blast
qed

section \<open>decodeURIComponent\<close>

lemma decodeURIComponent_plain:
  "c \<noteq> CHR ''%'' \<Longrightarrow>
   decodeURIComponent (c # cs) = map_sum id (\<lambda>r. c # r) (decodeURIComponent cs)"
  by simp

lemma decodeURIComponent_escape:
  "decode_escape_sequence cs = Some (bs, n) \<Longrightarrow>
   decodeURIComponent (CHR ''%'' # cs)
     = map_sum id (\<lambda>r. bs @ r) (decodeURIComponent (drop n cs))"
  by simp

lemma decodeURIComponent_bad_escape:
  "decode_escape_sequence cs = None \<Longrightarrow> decodeURIComponent (CHR ''%'' # cs) = Inl URIError"
  by simp

declare decodeURIComponent.simps(2) [simp del]

lemma decodeURIComponent_no_percent:
  "CHR ''%'' \<notin> set s \<Longrightarrow> decodeURIComponent s = Inr s"
proof (induction s)
  case Nil
  then show ?case by simp
next
  case (Cons c s)
  then have "c \<noteq> CHR ''%''" and "decodeURIComponent s = Inr s" by auto
  then show ?case by (simp add: decodeURIComponent_plain)
qed

text \<open>A \<open>%\<close> followed by something that is not two hexadecimal digits.\<close>

lemma decode_escape_sequence_not_hex:
  "\<not> (\<exists>h1 h2 rest. cs = h1 # h2 # rest \<and> is_hex_digit h1 \<and> is_hex_digit h2) \<Longrightarrow>
   decode_escape_sequence cs = None"
proof (cases cs)
  case Nil
  then show ?thesis by (simp add: decode_escape_sequence_def)
next
  case (Cons h1 t)
  note c1 = this
  assume a: "\<not> (\<exists>h1 h2 rest. cs = h1 # h2 # rest \<and> is_hex_digit h1 \<and> is_hex_digit h2)"
  show ?thesis
  proof (cases t)
    case Nil
    with c1 show ?thesis by (simp add: decode_escape_sequence_def)
  next
    case (Cons h2 rest)
    with c1 a have "\<not> (is_hex_digit h1 \<and> is_hex_digit h2)" by simp
    with c1 Cons show ?thesis by (auto simp: decode_escape_sequence_def)
  qed
qed


section \<open>JSON.parse reads what JSON.stringify wrote\<close>

lemma lower_hex_mem: "lower_hex d \<in> set ''0123456789abcdef''"
  unfolding lower_hex_def by (rule nth_mem) simp

lemma lower_hex_is_hex: "is_hex_digit (lower_hex d)"
proof -
  have "\<forall>c \<in> set ''0123456789abcdef''. is_hex_digit c"
    by (simp add: is_hex_digit_def)
  with lower_hex_mem show ?thesis by blast
qed

lemma hex_value_lower_hex: "d < 16 \<Longrightarrow> hex_value (lower_hex d) = d"
proof -
  assume "d < 16"
  then have "d \<in> set [0..<16]" by simp
  moreover have "\<forall>d \<in> set [0..<16]. hex_value (lower_hex d) = d"
    by (simp add: upt_rec hex_value_def lower_hex_def)
  ultimately show ?thesis by blast
qed

lemma char_eq_by_code: "(of_char c :: nat) = n \<Longrightarrow> n < 256 \<Longrightarrow> c = char_of n"
  by (metis char_of_char)

lemma tokenize_escaped_char:
  "tokenize (InString acc) (json_escape_char c @ s) = tokenize (InString (acc @ [item_of c])) s"
proof -
  let ?n = "of_char c :: nat"
  consider (quote) "?n = 0x22" | (backslash) "?n = 0x5C" | (b8) "?n = 8" | (b9) "?n = 9"
    | (b10) "?n = 10" | (b12) "?n = 12" | (b13) "?n = 13"
    | (control) "?n < 0x20" "?n \<noteq> 8" "?n \<noteq> 9" "?n \<noteq> 10" "?n \<noteq> 12" "?n \<noteq> 13"
    | (plain) "?n \<ge> 0x20" "?n \<noteq> 0x22" "?n \<noteq> 0x5C"
    by linarith
  then show ?thesis
  proof cases
    case quote
    then have c: "c = CHR 0x22" using char_eq_by_code [of c "0x22"] by (simp add: char_of_def bit_iff_odd)
    show ?thesis
      by (simp add: c json_escape_char_def item_of_def is_simple_escape_def simple_escape_def)
  next
    case backslash
    then have c: "c = CHR 0x5C" using char_eq_by_code [of c "0x5C"] by (simp add: char_of_def bit_iff_odd)
    show ?thesis
      by (simp add: c json_escape_char_def item_of_def is_simple_escape_def simple_escape_def)
  next
    case b8
    then have c: "c = CHR 0x08" using char_eq_by_code [of c 8] by (simp add: char_of_def bit_iff_odd)
    show ?thesis
      by (simp add: c json_escape_char_def item_of_def is_simple_escape_def simple_escape_def)
  next
    case b9
    then have c: "c = CHR 0x09" using char_eq_by_code [of c 9] by (simp add: char_of_def bit_iff_odd)
    show ?thesis
      by (simp add: c json_escape_char_def item_of_def is_simple_escape_def simple_escape_def)
  next
    case b10
    then have c: "c = CHR 0x0A" using char_eq_by_code [of c 10] by (simp add: char_of_def bit_iff_odd)
    show ?thesis
      by (simp add: c json_escape_char_def item_of_def is_simple_escape_def simple_escape_def)
  next
    case b12
    then have c: "c = CHR 0x0C" using char_eq_by_code [of c 12] by (simp add: char_of_def bit_iff_odd)
    show ?thesis
      by (simp add: c json_escape_char_def item_of_def is_simple_escape_def simple_escape_def)
  next
    case b13
    then have c: "c = CHR 0x0D" using char_eq_by_code [of c 13] by (simp add: char_of_def bit_iff_odd)
    show ?thesis
      by (simp add: c json_escape_char_def item_of_def is_simple_escape_def simple_escape_def)
  next
    case control
    let ?h = "lower_hex (?n div 16)" and ?l = "lower_hex (?n mod 16)"
    from control have esc: "json_escape_char c = [CHR 0x5C, CHR ''u'', CHR ''0'', CHR ''0'', ?h, ?l]"
      by (simp add: json_escape_char_def Let_def)
    from control have item: "item_of c = Inr ?n"
      by (simp add: item_of_def Let_def)
    have z: "is_hex_digit CHR ''0''" "hex_value CHR ''0'' = 0"
      by (simp_all add: is_hex_digit_def hex_value_def)
    from control have d: "?n div 16 < 16" by simp
    have "hex4 [CHR ''0'', CHR ''0'', ?h, ?l] = 16 * (?n div 16) + ?n mod 16"
      by (simp add: hex4_def z hex_value_lower_hex [OF d] hex_value_lower_hex)
    then have h4: "hex4 [CHR ''0'', CHR ''0'', ?h, ?l] = ?n" by simp
    show ?thesis
      unfolding esc item
      by (simp add: z lower_hex_is_hex is_simple_escape_def del: hex4_def) (simp only: h4 [simplified])
  next
    case plain
    then have "json_escape_char c = [c]" "item_of c = Inl c"
      by (simp_all add: json_escape_char_def item_of_def Let_def)
    moreover from plain have "c \<noteq> CHR 0x22" "c \<noteq> CHR 0x5C" by auto
    ultimately show ?thesis using plain by simp
  qed
qed

lemma tokenize_string_body:
  "tokenize (InString acc) (concat (map json_escape_char k) @ s)
     = tokenize (InString (acc @ map item_of k)) s"
proof (induction k arbitrary: acc)
  case Nil
  then show ?case by simp
next
  case (Cons c k)
  have "tokenize (InString acc) (concat (map json_escape_char (c # k)) @ s)
      = tokenize (InString acc) (json_escape_char c @ (concat (map json_escape_char k) @ s))"
    by simp
  also have "\<dots> = tokenize (InString (acc @ [item_of c])) (concat (map json_escape_char k) @ s)"
    by (rule tokenize_escaped_char)
  also have "\<dots> = tokenize (InString ((acc @ [item_of c]) @ map item_of k)) s"
    by (rule Cons.IH)
  finally show ?case by simp
qed

lemma units_to_utf8_small:
  "u < 0xD800 \<Longrightarrow> units_to_utf8 (Inr u # items) = utf8_encode u @ units_to_utf8 items"
proof (cases items)
  case Nil
  then show ?thesis by simp
next
  case (Cons i rest)
  assume "u < 0xD800"
  with Cons show ?thesis by (cases i) simp_all
qed

lemma units_to_utf8_item_of: "units_to_utf8 (map item_of k) = k"
proof (induction k)
  case Nil
  then show ?case by simp
next
  case (Cons c k)
  show ?case
  proof (cases "item_of c")
    case (Inl a)
    then have "a = c" by (auto simp: item_of_def Let_def split: if_splits)
    with Inl Cons.IH show ?thesis by simp
  next
    case (Inr u)
    then have u: "u = of_char c" "u < 0x20"
      by (auto simp: item_of_def Let_def split: if_splits)
    then have "utf8_encode u = [c]" by (simp add: utf8_encode_def)
    with Inr u Cons.IH show ?thesis by (simp add: units_to_utf8_small)
  qed
qed

lemma tokenize_quoted:
  "tokenize Top (QuoteJSONString k @ s) = emit (TString k) (tokenize Top s)"
proof -
  have "tokenize Top (QuoteJSONString k @ s)
      = tokenize (InString []) (concat (map json_escape_char k) @ (CHR 0x22 # s))"
    by (simp add: QuoteJSONString_def is_whitespace_def punctuation_def)
  also have "\<dots> = tokenize (InString ([] @ map item_of k)) (CHR 0x22 # s)"
    by (rule tokenize_string_body)
  also have "\<dots> = emit (TString k) (tokenize Top s)"
    by (simp add: units_to_utf8_item_of)
  finally show ?thesis .
qed

lemma JSON_stringify_single: "JSON_stringify [k] = CHR ''['' # QuoteJSONString k @ '']''"
  by (simp add: JSON_stringify_def)

lemma tokenize_stringify_single:
  "tokenize Top (JSON_stringify [k]) = Inr [TLBracket, TString k, TRBracket]"
proof -
  have "tokenize Top (JSON_stringify [k]) = emit TLBracket (tokenize Top (QuoteJSONString k @ '']''))"
    by (simp add: JSON_stringify_single is_whitespace_def punctuation_def)
  also have "\<dots> = emit TLBracket (emit (TString k) (tokenize Top '']''))"
    by (simp only: tokenize_quoted)
  also have "\<dots> = Inr [TLBracket, TString k, TRBracket]"
    by (simp add: emit_def is_whitespace_def punctuation_def)
  finally show ?thesis .
qed

lemma JSON_parse_stringify_single: "JSON_parse (JSON_stringify [k]) = Inr (JArr [JStr k])"
  by (simp add: JSON_parse_def tokenize_stringify_single)

lemma lower_hex_not_percent: "lower_hex d \<noteq> CHR ''%''"
proof -
  have "\<forall>x \<in> set ''0123456789abcdef''. x \<noteq> CHR ''%''" by simp
  with lower_hex_mem show ?thesis by blast
qed

lemma json_escape_char_no_percent:
  assumes "c \<noteq> CHR ''%''"
  shows "CHR ''%'' \<notin> set (json_escape_char c)"
proof -
  note lh = lower_hex_not_percent [THEN not_sym]
  note c' = assms [THEN not_sym]
  show ?thesis
    by (simp add: json_escape_char_def Let_def lh c')
qed

lemma JSON_stringify_no_percent:
  assumes "CHR ''%'' \<notin> set k"
  shows "CHR ''%'' \<notin> set (JSON_stringify [k])"
proof -
  have "\<forall>c \<in> set k. CHR ''%'' \<notin> set (json_escape_char c)"
  proof
    fix c assume "c \<in> set k"
    with assms have "c \<noteq> CHR ''%''" by (rule_tac notI) simp
    then show "CHR ''%'' \<notin> set (json_escape_char c)"
      by (rule json_escape_char_no_percent)
  qed
  then have "CHR ''%'' \<notin> set (concat (map json_escape_char k))"
    by simp
  then show ?thesis
    by (simp add: JSON_stringify_single QuoteJSONString_def)
qed

lemma JSON_stringify_nonempty: "JSON_stringify xs \<noteq> []"
  by (simp add: JSON_stringify_def)

lemma decode_body_stringify:
  assumes "CHR ''%'' \<notin> set k"
  shows "decode_body (JSON_stringify [k]) cur = Inr (JStr k)"
proof -
  have d: "decodeURIComponent (JSON_stringify [k]) = Inr (JSON_stringify [k])"
    by (rule decodeURIComponent_no_percent [OF JSON_stringify_no_percent [OF assms]])
  show ?thesis
    by (simp add: decode_body_def d JSON_parse_stringify_single)
qed

lemma decode_stringify:
  assumes "CHR ''%'' \<notin> set k"
  shows "decode_currentStatus (Some (JSON_stringify [k])) = Inr (JStr k)"
  unfolding decode_currentStatus_def Let_def
  by (simp add: JSON_stringify_nonempty decode_body_stringify [OF assms] try_catch_def)

lemma after_status_change_get:
  "URLSearchParams_get (after_status_change ps status) ''!status_matches''
     = (if status = ''all'' then None else Some (JSON_stringify [status]))"
  by (simp add: get_hd_filter after_status_change_def filter_delete_same filter_set_same)

lemma status_round_trip:
  assumes "CHR ''?'' \<notin> set (pathname loc)" and "CHR ''#'' \<notin> set (pathname loc)"
    and "CHR ''%'' \<notin> set k"
  shows "currentStatus_of (selectTab loc k) = Inr (JStr k)"
proof -
  have g: "URLSearchParams_get (useSearchParams (selectTab loc k)) ''!status_matches''
           = (if k = ''all'' then None else Some (JSON_stringify [k]))"
    by (simp only: selectTab_params [OF assms(1,2)] after_status_change_get)
  show ?thesis
  proof (cases "k = ''all''")
    case True
    with g have "currentStatus_of (selectTab loc k) = decode_currentStatus None"
      by (simp only: currentStatus_of_def refl if_True)
    then show ?thesis using True by (simp add: decode_currentStatus_def)
  next
    case False
    with g have "currentStatus_of (selectTab loc k)
        = decode_currentStatus (Some (JSON_stringify [k]))"
      by (simp only: currentStatus_of_def if_False)
    then show ?thesis by (simp only: decode_stringify [OF assms(3)])
  qed
qed


lemma decodeURIComponent_percent:
  "decodeURIComponent (CHR ''%'' # cs) =
     (if decode_escape_sequence cs = None then Inl URIError
      else map_sum id (\<lambda>r. fst (the (decode_escape_sequence cs)) @ r)
             (decodeURIComponent (drop (snd (the (decode_escape_sequence cs))) cs)))"
  by (simp add: decodeURIComponent.simps)

lemmas decode_eval = decodeURIComponent_plain decodeURIComponent_percent
  decode_escape_sequence_def utf8_sequence_length_def utf8_valid_def is_continuation_def
  is_hex_digit_def hex_value_def char_of_def bit_iff_odd Let_def

lemmas tokenize_eval = is_whitespace_def punctuation_def is_digit_def is_lower_def
  is_number_char_def is_simple_escape_def simple_escape_def literal_token_def emit_def
  valid_number_def hex4_def utf8_encode_def

lemmas status_eval = decode_currentStatus_def decode_body_def try_catch_def JSON_parse_def


section \<open>Decoding the current status\<close>

lemma decode_currentStatus_absent:
  "decode_currentStatus None = Inr (JStr ''all'')"
  "decode_currentStatus (Some []) = Inr (JStr ''all'')"
  by (simp_all add: decode_currentStatus_def)

lemma decode_currentStatus_present:
  "s \<noteq> [] \<Longrightarrow>
   decode_currentStatus (Some s)
     = (case decode_body s (JStr ''all'') of Inl e \<Rightarrow> Inr (JStr ''all'') | Inr v \<Rightarrow> Inr v)"
  by (simp add: decode_currentStatus_def try_catch_def Let_def)

lemma decode_currentStatus_never_raises: "\<exists>v. decode_currentStatus statusFilter = Inr v"
proof (cases "statusFilter \<noteq> None \<and> statusFilter \<noteq> Some []")
  case True
  then obtain s where s: "statusFilter = Some s" "s \<noteq> []" by (cases statusFilter) auto
  show ?thesis
    unfolding s(1) decode_currentStatus_present [OF s(2)]
    by (cases "decode_body s (JStr ''all'')") simp_all
next
  case False
  then show ?thesis by (auto simp: decode_currentStatus_def)
qed

lemma get_property_not_object:
  "\<forall>ms. x \<noteq> JObj ms \<Longrightarrow>
   get_property x name = Inl TypeError \<or> get_property x name = Inr JUndefined"
  by (cases x) simp_all

text \<open>
  C4: decoding has no error channel.  For every value of the \<open>!status_matches\<close> parameter
  the statement ends normally with some value of \<open>currentStatus\<close>.  That value is \<open>all\<close> when
  the parameter is absent, when it is the empty string, when \<open>decodeURIComponent\<close> throws,
  when \<open>JSON.parse\<close> throws, when the JSON value is not an array and when it is the empty
  array.  When the first element of the array is neither a string nor an object, nothing
  is raised either: the value is \<open>all\<close> (for \<open>null\<close>, whose property read throws inside the
  \<open>try\<close>) or \<open>undefined\<close>.
\<close>

theorem decode_currentStatus_total:
  "(\<exists>r. decode_currentStatus statusFilter = Inr r)
   \<and> decode_currentStatus None = Inr (JStr ''all'')
   \<and> decode_currentStatus (Some []) = Inr (JStr ''all'')
   \<and> (decodeURIComponent s = Inl e \<longrightarrow> decode_currentStatus (Some s) = Inr (JStr ''all''))
   \<and> (decodeURIComponent s = Inr d \<and> JSON_parse d = Inl e \<longrightarrow>
        decode_currentStatus (Some s) = Inr (JStr ''all''))
   \<and> (decodeURIComponent s = Inr d \<and> JSON_parse d = Inr v \<and> \<not> isArray v \<longrightarrow>
        decode_currentStatus (Some s) = Inr (JStr ''all''))
   \<and> (decodeURIComponent s = Inr d \<and> JSON_parse d = Inr (JArr []) \<longrightarrow>
        decode_currentStatus (Some s) = Inr (JStr ''all''))
   \<and> (decodeURIComponent s = Inr d \<and> JSON_parse d = Inr (JArr (x # xs))
        \<and> \<not> typeof_is_string x \<and> (\<forall>ms. x \<noteq> JObj ms) \<longrightarrow>
        decode_currentStatus (Some s) = Inr (JStr ''all'')
        \<or> decode_currentStatus (Some s) = Inr JUndefined)"
proof (intro conjI impI)
  show "\<exists>r. decode_currentStatus statusFilter = Inr r"
    by (rule decode_currentStatus_never_raises)
  show "decode_currentStatus None = Inr (JStr ''all'')"
    and "decode_currentStatus (Some []) = Inr (JStr ''all'')"
    by (rule decode_currentStatus_absent)+
next
  assume "decodeURIComponent s = Inl e"
  then show "decode_currentStatus (Some s) = Inr (JStr ''all'')"
    by (cases "s = []") (simp_all add: decode_currentStatus_present decode_body_def)
next
  assume "decodeURIComponent s = Inr d \<and> JSON_parse d = Inl e"
  then show "decode_currentStatus (Some s) = Inr (JStr ''all'')"
    by (cases "s = []")
      (simp_all add: decode_currentStatus_absent decode_currentStatus_present decode_body_def)
next
  assume a: "decodeURIComponent s = Inr d \<and> JSON_parse d = Inr v \<and> \<not> isArray v"
  then have "decode_body s (JStr ''all'') = Inr (JStr ''all'')"
    by (cases v) (simp_all add: decode_body_def)
  then show "decode_currentStatus (Some s) = Inr (JStr ''all'')"
    by (cases "s = []") (simp_all add: decode_currentStatus_absent decode_currentStatus_present)
next
  assume "decodeURIComponent s = Inr d \<and> JSON_parse d = Inr (JArr [])"
  then show "decode_currentStatus (Some s) = Inr (JStr ''all'')"
    by (cases "s = []")
      (simp_all add: decode_currentStatus_absent decode_currentStatus_present decode_body_def)
next
  assume a: "decodeURIComponent s = Inr d \<and> JSON_parse d = Inr (JArr (x # xs))
             \<and> \<not> typeof_is_string x \<and> (\<forall>ms. x \<noteq> JObj ms)"
  then have b: "decode_body s (JStr ''all'') = get_property x ''value''"
    by (simp add: decode_body_def)
  from a have "get_property x ''value'' = Inl TypeError \<or> get_property x ''value'' = Inr JUndefined"
    by (intro get_property_not_object) simp
  then show "decode_currentStatus (Some s) = Inr (JStr ''all'')
             \<or> decode_currentStatus (Some s) = Inr JUndefined"
  proof (cases "s = []")
    case True
    then show ?thesis by (simp add: decode_currentStatus_absent)
  next
    case False
    assume "get_property x ''value'' = Inl TypeError \<or> get_property x ''value'' = Inr JUndefined"
    then show ?thesis
      unfolding decode_currentStatus_present [OF False] b by auto
  qed
qed

text \<open>Parameter values of each kind, evaluated.\<close>

lemma sample_bad_escape:
  "decodeURIComponent ''%'' = Inl URIError"
  "decodeURIComponent ''%E0%A4%A'' = Inl URIError"
  by (simp_all add: decode_eval)

lemma sample_not_json:
  "decodeURIComponent ''{nojson'' = Inr ''{nojson''" "JSON_parse ''{nojson'' = Inl SyntaxError"
  by (simp_all add: decode_eval JSON_parse_def tokenize_eval)

lemma sample_object:
  "decodeURIComponent ''{}'' = Inr ''{}''" "JSON_parse ''{}'' = Inr (JObj [])"
  by (simp_all add: decode_eval JSON_parse_def tokenize_eval)

lemma sample_empty_array:
  "decodeURIComponent ''%5B%5D'' = Inr ''[]''" "JSON_parse ''[]'' = Inr (JArr [])"
  by (simp_all add: decode_eval JSON_parse_def tokenize_eval)

lemma sample_number:
  "decodeURIComponent ''[7]'' = Inr ''[7]''" "JSON_parse ''[7]'' = Inr (JArr [JNum ''7''])"
  by (simp_all add: decode_eval JSON_parse_def tokenize_eval)

lemma sample_null:
  "decodeURIComponent ''[null]'' = Inr ''[null]''" "JSON_parse ''[null]'' = Inr (JArr [JNull])"
  by (simp_all add: decode_eval JSON_parse_def tokenize_eval)

text \<open>
  A lone \<open>%\<close>, a truncated escape sequence, a text that is not JSON, a JSON object, the
  encoded empty array, an array holding \<open>null\<close> and an array holding a number.
\<close>

theorem decode_currentStatus_total_witness:
  "decode_currentStatus (Some ''%'') = Inr (JStr ''all'')
   \<and> decode_currentStatus (Some ''%E0%A4%A'') = Inr (JStr ''all'')
   \<and> decode_currentStatus (Some ''{nojson'') = Inr (JStr ''all'')
   \<and> decode_currentStatus (Some ''{}'') = Inr (JStr ''all'')
   \<and> decode_currentStatus (Some ''%5B%5D'') = Inr (JStr ''all'')
   \<and> decode_currentStatus (Some ''[null]'') = Inr (JStr ''all'')
   \<and> decode_currentStatus (Some ''[7]'') = Inr JUndefined"
proof -
  note T = decode_currentStatus_total
  note bad = T [THEN conjunct2, THEN conjunct2, THEN conjunct2, THEN conjunct1, THEN mp]
  note nojson = T [THEN conjunct2, THEN conjunct2, THEN conjunct2, THEN conjunct2,
    THEN conjunct1, THEN mp, OF conjI]
  note noarr = T [THEN conjunct2, THEN conjunct2, THEN conjunct2, THEN conjunct2,
    THEN conjunct2, THEN conjunct1, THEN mp, OF conjI, OF _ conjI]
  note empty = T [THEN conjunct2, THEN conjunct2, THEN conjunct2, THEN conjunct2,
    THEN conjunct2, THEN conjunct2, THEN conjunct1, THEN mp, OF conjI]
  note other = T [THEN conjunct2, THEN conjunct2, THEN conjunct2, THEN conjunct2,
    THEN conjunct2, THEN conjunct2, THEN conjunct2, THEN mp, OF conjI, OF _ conjI, OF _ _ conjI]
  have a: "decode_currentStatus (Some ''%'') = Inr (JStr ''all'')"
    by (rule bad [OF sample_bad_escape(1)])
  have b: "decode_currentStatus (Some ''%E0%A4%A'') = Inr (JStr ''all'')"
    by (rule bad [OF sample_bad_escape(2)])
  have c: "decode_currentStatus (Some ''{nojson'') = Inr (JStr ''all'')"
    by (rule nojson [OF sample_not_json])
  have d: "decode_currentStatus (Some ''{}'') = Inr (JStr ''all'')"
    by (rule noarr [OF sample_object]) simp
  have e: "decode_currentStatus (Some ''%5B%5D'') = Inr (JStr ''all'')"
    by (rule empty [OF sample_empty_array])
  have f0: "decode_currentStatus (Some ''[null]'') = Inr (JStr ''all'')
            \<or> decode_currentStatus (Some ''[null]'') = Inr JUndefined"
    by (rule other [OF sample_null]) simp_all
  have f1: "decode_currentStatus (Some ''[null]'') \<noteq> Inr JUndefined"
    by (simp add: status_eval sample_null del: JSON_parse_def)
  have g0: "decode_currentStatus (Some ''[7]'') = Inr (JStr ''all'')
            \<or> decode_currentStatus (Some ''[7]'') = Inr JUndefined"
    by (rule other [OF sample_number]) simp_all
  have g1: "decode_currentStatus (Some ''[7]'') \<noteq> Inr (JStr ''all'')"
    by (simp add: status_eval sample_number del: JSON_parse_def)
  from f0 f1 have f: "decode_currentStatus (Some ''[null]'') = Inr (JStr ''all'')" by blast
  from g0 g1 have g: "decode_currentStatus (Some ''[7]'') = Inr JUndefined" by blast
  from a b c d e f g show ?thesis by (intro conjI)
qed


section \<open>The round trip of a status through the URL\<close>

text \<open>
  The four statuses the inventory page configures come back from the URL as they were
  selected (by \<open>status_round_trip\<close>: none of them holds a \<open>%\<close>).
\<close>

lemma status_round_trip_inventory:
  "\<forall>k \<in> set (map fst statusConfig). currentStatus_of (selectTab (at_inventory []) k) = Inr (JStr k)"
proof
  fix k assume "k \<in> set (map fst statusConfig)"
  then have "CHR ''%'' \<notin> set k"
    by (auto simp: statusConfig_def)
  then show "currentStatus_of (selectTab (at_inventory []) k) = Inr (JStr k)"
    by (intro status_round_trip) simp_all
qed

text \<open>
  C3 at a key that holds a \<open>%\<close>: selecting the status \<open>50%\<close> writes
  \<open>!status_matches=%5B%2250%25%22%5D\<close>; the next render reads the parameter back as
  \<open>["50%"]\<close>, already decoded by \<open>URLSearchParams\<close>; \<open>decodeURIComponent\<close> is applied to it
  once more and throws a URIError, which the \<open>catch\<close> swallows: the current status is \<open>all\<close>,
  not \<open>50%\<close>.  The key \<open>a%41\<close> comes back as \<open>aA\<close>.
\<close>

theorem status_round_trip_breaks_on_percent:
  "search (selectTab (at_inventory []) ''50%'') = ''?page=1&%21status_matches=%5B%2250%25%22%5D''
   \<and> URLSearchParams_get (useSearchParams (selectTab (at_inventory []) ''50%'')) ''!status_matches''
       = Some ([CHR ''['', CHR 0x22] @ ''50%'' @ [CHR 0x22, CHR '']''])
   \<and> decodeURIComponent ([CHR ''['', CHR 0x22] @ ''50%'' @ [CHR 0x22, CHR '']'']) = Inl URIError
   \<and> currentStatus_of (selectTab (at_inventory []) ''50%'') = Inr (JStr ''all'')
   \<and> currentStatus_of (selectTab (at_inventory []) ''a%41'') = Inr (JStr ''aA'')"
proof -
  have p: "CHR ''?'' \<notin> set (pathname (at_inventory []))"
    "CHR ''#'' \<notin> set (pathname (at_inventory []))"
    by simp_all
  have e: "useSearchParams (at_inventory []) = []"
    by (simp add: useSearchParams_def new_URLSearchParams_def urlencoded_parse_def)
  have j: "JSON_stringify [''50%''] = [CHR ''['', CHR 0x22] @ ''50%'' @ [CHR 0x22, CHR '']'']"
    by (simp add: json_eval)
  have a: "search (selectTab (at_inventory []) ''50%'') = ''?page=1&%21status_matches=%5B%2250%25%22%5D''"
    by (simp add: selectTab_location [OF p] e after_status_change_def j serialize_eval)
  have b: "URLSearchParams_get (useSearchParams (selectTab (at_inventory []) ''50%'')) ''!status_matches''
           = Some ([CHR ''['', CHR 0x22] @ ''50%'' @ [CHR 0x22, CHR '']''])"
    by (simp add: selectTab_params [OF p] after_status_change_get j)
  have c: "decodeURIComponent ([CHR ''['', CHR 0x22] @ ''50%'' @ [CHR 0x22, CHR '']'']) = Inl URIError"
    by (simp add: decode_eval)
  have d: "currentStatus_of (selectTab (at_inventory []) ''50%'') = Inr (JStr ''all'')"
    unfolding currentStatus_of_def b
    using c by (simp add: decode_currentStatus_def try_catch_def decode_body_def)
  have j2: "JSON_stringify [''a%41''] = [CHR ''['', CHR 0x22] @ ''a%41'' @ [CHR 0x22, CHR '']'']"
    by (simp add: json_eval)
  have b2: "URLSearchParams_get (useSearchParams (selectTab (at_inventory []) ''a%41''))
              ''!status_matches''
            = Some ([CHR ''['', CHR 0x22] @ ''a%41'' @ [CHR 0x22, CHR '']''])"
    by (simp add: selectTab_params [OF p] after_status_change_get j2)
  have c2: "decodeURIComponent ([CHR ''['', CHR 0x22] @ ''a%41'' @ [CHR 0x22, CHR '']''])
            = Inr ([CHR ''['', CHR 0x22] @ ''aA'' @ [CHR 0x22, CHR '']''])"
    by (simp add: decode_eval)
  have d2: "JSON_parse ([CHR ''['', CHR 0x22] @ ''aA'' @ [CHR 0x22, CHR '']''])
            = Inr (JArr [JStr ''aA''])"
    by (simp add: JSON_parse_def tokenize_eval)
  have e2: "currentStatus_of (selectTab (at_inventory []) ''a%41'') = Inr (JStr ''aA'')"
    unfolding currentStatus_of_def b2
    using c2 d2 by (simp add: decode_currentStatus_def try_catch_def decode_body_def)
  from a b c d e2 show ?thesis by (intro conjI)
qed

section \<open>The empty states of the inventory list page\<close>

text \<open>
  With a list, no error and a count of 0, the empty state is chosen by the search term
  alone.
\<close>

lemma InventoryListPageClient_empty_state:
  assumes "list_present props" and "initialError props = None \<or> initialError props = Some []"
    and "initialData_count props = 0"
  shows "InventoryListPageClient props
         = (if search_term (initialSearchParams props) = [] then EmptyStateDefault
            else EmptyStateSearch)"
  using assms by (auto simp: InventoryListPageClient_def Let_def)

text \<open>
  C1 at a URL whose status filter is active (\<open>low_stock\<close>), with no search term, no error
  and a count of 0: the page renders the "No Inventory Created" empty state, not the
  "No Results Found" one.
\<close>

theorem empty_state_ignores_status_filter:
  "currentStatus_of (at_inventory low_stock_query) = Inr (JStr ''low_stock'')
   \<and> InventoryListPageClient
        \<lparr>list_present = True, initialData_count = 0, initialError = None,
          initialSearchParams = \<lparr>page = 1, pageSize = 50, search_term = []\<rparr>\<rparr> = EmptyStateDefault"
proof -
  have g: "URLSearchParams_get (useSearchParams (at_inventory low_stock_query)) ''!status_matches''
           = Some (JSON_stringify [''low_stock''])"
    by (simp add: useSearchParams_def low_stock_query_def parse_eval json_eval
          URLSearchParams_get_def)
  have "CHR ''%'' \<notin> set ''low_stock''" by simp
  then have a: "currentStatus_of (at_inventory low_stock_query) = Inr (JStr ''low_stock'')"
    unfolding currentStatus_of_def g by (rule decode_stringify)
  have b: "InventoryListPageClient
        \<lparr>list_present = True, initialData_count = 0, initialError = None,
          initialSearchParams = \<lparr>page = 1, pageSize = 50, search_term = []\<rparr>\<rparr> = EmptyStateDefault"
    by (simp add: InventoryListPageClient_def)
  from a b show ?thesis by (intro conjI)
qed

end
